theory Spec2Isabelle
  imports Main "HOL-Library.Word" "HOL-Library.AList"
begin

unbundle bit_operations_syntax

chapter \<open>The RTEMS linker host tools: file cache and RAP image builder\<close>

text \<open>
  A shallow embedding of \<^verbatim>\<open>rld-files.cpp\<close> (path utilities, \<^verbatim>\<open>file\<close>,
  \<^verbatim>\<open>image\<close>, \<^verbatim>\<open>copy_file\<close>, \<^verbatim>\<open>archive\<close>, \<^verbatim>\<open>object\<close>) and of
  \<^verbatim>\<open>rld-rap.cpp\<close> (\<^verbatim>\<open>section\<close>, \<^verbatim>\<open>external\<close>, \<^verbatim>\<open>object\<close>, \<^verbatim>\<open>image\<close>).

  Conventions.
  \<^item> \<^verbatim>\<open>std::string\<close> and byte buffers are \<open>string\<close> (a list of 8-bit characters).
  \<^item> \<^verbatim>\<open>uint32_t\<close> is \<open>32 word\<close>, \<^verbatim>\<open>uint64_t\<close> is \<open>64 word\<close>; \<^verbatim>\<open>size_t\<close> values
    are \<open>nat\<close> with the wrap-around at \<open>SIZE_MAX + 1\<close> written out where the code can wrap.
  \<^item> Every \<^verbatim>\<open>throw\<close> is a constructor of \<open>rld_error\<close>; a function that can throw returns
    \<open>rld_error + 'a\<close>. Where the C++ standard leaves the behaviour of an operation
    undefined (a read outside a string or an array, a shift by a count outside the width
    of the type) the model stops with \<open>Undefined\<close> and says nothing about what follows.
  \<^item> What the operating system, the ELF reader and the compressor answer is not part of
    these sources; it enters the model as an argument.
\<close>

section \<open>Errors\<close>

datatype rld_error =
    AlignmentMismatch string    \<comment> \<open>"Alignments do not match for section 'name'"\<close>
  | InvalidAlignment string     \<comment> \<open>"Invalid alignment 'name'"\<close>
  | SectionIndexNotFound string \<comment> \<open>"Section index not found: name"\<close>
  | NotValid string             \<comment> \<open>"Not valid: name"\<close>
  | NoFileName                  \<comment> \<open>"No file name"\<close>
  | OsError string              \<comment> \<open>\<^verbatim>\<open>strerror (errno)\<close> of a failed system call\<close>
  | InputTooShort               \<comment> \<open>"input too short"\<close>
  | OutputTruncated             \<comment> \<open>"output trucated"\<close>
  | BadAlloc                    \<comment> \<open>\<^verbatim>\<open>new\<close> failed\<close>
  | NameEmpty                   \<comment> \<open>"name is empty"\<close>
  | NotAnArchive string         \<comment> \<open>"name is not an archive: oname"\<close>
  | InvalidHeaderMagic int      \<comment> \<open>"Invalid header magic numbers at offset"\<close>
  | NoExtendedNames             \<comment> \<open>"No GNU extended file name section found"\<close>
  | ExtendedNameNotFound        \<comment> \<open>"extended file name not found"\<close>
  | Undefined                   \<comment> \<open>no behaviour defined by the language\<close>

type_synonym u32 = "32 word"
type_synonym u64 = "64 word"

section \<open>Strings and numbers\<close>

definition NUL :: char where
  "NUL = CHR 0x00"

definition NL :: char where
  "NL = CHR 0x0A"

text \<open>\<^verbatim>\<open>SIZE_MAX\<close> of an LP64 target; the wrap-around of \<^verbatim>\<open>size_t\<close> is at \<open>SIZE_MAX + 1\<close>.\<close>

definition SIZE_MAX :: nat where
  "SIZE_MAX = 2 ^ 64 - 1"

text \<open>\<^verbatim>\<open>n - 1\<close> on \<^verbatim>\<open>size_t\<close>.\<close>

definition size_minus_one :: "nat \<Rightarrow> nat" where
  "size_minus_one n = (if n = 0 then SIZE_MAX else n - 1)"

text \<open>
  \<^verbatim>\<open>std::string::operator[] (pos) const\<close>: the character at \<open>pos\<close> when \<open>pos < size ()\<close>,
  the value \<^verbatim>\<open>charT ()\<close> when \<open>pos = size ()\<close>, undefined beyond.
\<close>

definition str_at :: "string \<Rightarrow> nat \<Rightarrow> rld_error + char" where
  "str_at s pos =
     (if pos < length s then Inr (s ! pos)
      else if pos = length s then Inr NUL
      else Inl Undefined)"

text \<open>
  \<^verbatim>\<open>&s[pos]\<close> of a constant string used as a C string: the characters from \<open>pos\<close> up to
  the first NUL.
\<close>

definition c_str_from :: "string \<Rightarrow> nat \<Rightarrow> rld_error + string" where
  "c_str_from s pos =
     (if pos \<le> length s then Inr (takeWhile (\<lambda>c. c \<noteq> NUL) (drop pos s))
      else Inl Undefined)"

text \<open>\<^verbatim>\<open>std::string::find_last_of (char)\<close>; \<open>None\<close> is \<^verbatim>\<open>npos\<close>.\<close>

primrec find_last_of :: "string \<Rightarrow> char \<Rightarrow> nat option" where
  "find_last_of [] c = None"
| "find_last_of (x # xs) c =
     (case find_last_of xs c of
        Some i \<Rightarrow> Some (Suc i)
      | None \<Rightarrow> if x = c then Some 0 else None)"

text \<open>
  \<^verbatim>\<open>std::string::find_first_of (const std::string&)\<close>: the position of the first
  character that is one of the characters of the argument; \<open>None\<close> is \<^verbatim>\<open>npos\<close>.
\<close>

primrec find_first_of :: "string \<Rightarrow> string \<Rightarrow> nat option" where
  "find_first_of [] cs = None"
| "find_first_of (x # xs) cs =
     (if x \<in> set cs then Some 0 else map_option Suc (find_first_of xs cs))"

text \<open>The digits of a number as an output stream prints them, in base 10 or 8.\<close>

fun digits_of :: "nat \<Rightarrow> nat \<Rightarrow> string" where
  "digits_of b n =
     (if b < 2 \<or> n < b then [''0123456789'' ! n]
      else digits_of b (n div b) @ [''0123456789'' ! (n mod b)])"

definition to_string :: "int \<Rightarrow> string" where
  "to_string i = (if i < 0 then CHR ''-'' # digits_of 10 (nat (- i)) else digits_of 10 (nat i))"

text \<open>\<^verbatim>\<open>memcpy (buf + at, src, length src)\<close> inside a buffer that is long enough.\<close>

definition overwrite :: "string \<Rightarrow> nat \<Rightarrow> string \<Rightarrow> string" where
  "overwrite buf at src = take at buf @ src @ drop (at + length src) buf"

text \<open>\<^verbatim>\<open>scan_decimal\<close>: stops at the first space or after \<open>len\<close> characters.\<close>

fun scan_decimal_from :: "u64 \<Rightarrow> string \<Rightarrow> u64" where
  "scan_decimal_from v [] = v"
| "scan_decimal_from v (c # cs) =
     (if c = CHR '' '' then v
      else scan_decimal_from (v * 10 + (of_nat (of_char c) - 48)) cs)"

definition scan_decimal :: "string \<Rightarrow> nat \<Rightarrow> u64" where
  "scan_decimal s len = scan_decimal_from 0 (take len s)"

text \<open>\<^verbatim>\<open>set_number\<close>: at most \<open>len\<close> characters of the number, copied to \<open>at\<close>.\<close>

definition set_number :: "u32 \<Rightarrow> string \<Rightarrow> nat \<Rightarrow> nat \<Rightarrow> bool \<Rightarrow> string" where
  "set_number v buf at len octal =
     overwrite buf at (take len (digits_of (if octal then 8 else 10) (unat v)))"

section \<open>Path utilities\<close>

text \<open>
  \<^verbatim>\<open>RLD_PATH_SEPARATOR\<close> is defined in \<^verbatim>\<open>rld.h\<close>, which is not among the sources: the
  separator is the argument \<open>sep\<close> of the functions below.
\<close>

definition basename :: "char \<Rightarrow> string \<Rightarrow> string" where
  "basename sep name =
     (case find_last_of name sep of
        Some b \<Rightarrow> drop (b + 1) name
      | None \<Rightarrow> name)"

text \<open>
  \<^verbatim>\<open>path_join\<close>. Both conditions read \<^verbatim>\<open>path_[path_.size () - 1]\<close> first; whichever way
  the first comparison goes, \<^verbatim>\<open>file_[0]\<close> is read next (by the first condition, or by the
  second after the first was cut short).
\<close>

definition path_join :: "char \<Rightarrow> string \<Rightarrow> string \<Rightarrow> rld_error + string" where
  "path_join sep path file =
     (case str_at path (size_minus_one (length path)) of
        Inl e \<Rightarrow> Inl e
      | Inr pl \<Rightarrow>
          (case str_at file 0 of
             Inl e \<Rightarrow> Inl e
           | Inr f0 \<Rightarrow>
               if pl \<noteq> sep \<and> f0 \<noteq> sep then Inr (path @ [sep] @ file)
               else if pl = sep \<and> f0 = sep then
                 (case c_str_from file 1 of
                    Inl e \<Rightarrow> Inl e
                  | Inr rest \<Rightarrow> Inr (path @ rest))
               else Inr (path @ file)))"

section \<open>File names\<close>

record rld_file =
  aname :: string
  oname :: string
  f_offset :: int
  f_size :: nat

definition file_empty :: rld_file where
  "file_empty = \<lparr>aname = [], oname = [], f_offset = 0, f_size = 0\<rparr>"

text \<open>
  \<^verbatim>\<open>file::set\<close>. \<open>drive_sep\<close> is \<^verbatim>\<open>RLD_DRIVE_SEPARATOR\<close> (from \<^verbatim>\<open>rld.h\<close>) as the
  comparison with the \<^verbatim>\<open>size_t\<close> position reads it; \<open>st\<close> is what \<^verbatim>\<open>stat\<close> answers for the
  path (\<open>None\<close> when it fails).
\<close>

definition file_set :: "nat \<Rightarrow> nat option \<Rightarrow> string \<Rightarrow> bool \<Rightarrow> rld_file \<Rightarrow> rld_file" where
  "file_set drive_sep st path is_object f =
     (if path \<noteq> [] then
        (let stat_size = (\<lambda>g. case st of Some n \<Rightarrow> g\<lparr>f_size := n\<rparr> | None \<Rightarrow> g) in
         if is_object then
           (case find_last_of path (CHR '':'') of
              Some colon \<Rightarrow>
                if colon > drive_sep
                then f\<lparr>aname := take (colon - 1) path, oname := drop (colon + 1) path\<rparr>
                else stat_size (f\<lparr>oname := path\<rparr>)
            | None \<Rightarrow> stat_size (f\<lparr>oname := path\<rparr>))
         else stat_size (f\<lparr>aname := path\<rparr>))
      else f)"

definition file_is_archive :: "rld_file \<Rightarrow> bool" where
  "file_is_archive f = (aname f \<noteq> [] \<and> oname f = [])"

definition file_is_object :: "rld_file \<Rightarrow> bool" where
  "file_is_object f = (oname f \<noteq> [])"

text \<open>
  \<^verbatim>\<open>file::is_valid\<close> returns \<^verbatim>\<open>!aname_.empty () || ~oname_.empty ()\<close>. The right operand,
  evaluated when the left one is false, is the bitwise complement of the \<^verbatim>\<open>bool\<close>
  promoted to \<^verbatim>\<open>int\<close>, converted back to \<^verbatim>\<open>bool\<close> (non-zero is true).
\<close>

definition file_is_valid :: "rld_file \<Rightarrow> bool" where
  "file_is_valid f =
     (if aname f \<noteq> [] then True else NOT (of_bool (oname f = []) :: int) \<noteq> 0)"

definition file_path :: "rld_file \<Rightarrow> string" where
  "file_path f = (if aname f \<noteq> [] then aname f else oname f)"

definition file_full :: "rld_file \<Rightarrow> string" where
  "file_full f =
     (let f1 = (if aname f \<noteq> [] then aname f @ (if oname f \<noteq> [] then '':'' else []) else []);
          f2 = (if oname f \<noteq> [] then f1 @ oname f else f1)
      in if aname f \<noteq> [] \<and> oname f \<noteq> [] then f2 @ CHR ''@'' # to_string (f_offset f) else f2)"

section \<open>Images: reference-counted file descriptors\<close>

record image =
  img_name :: rld_file
  img_refs :: int
  img_fd :: int

text \<open>The system calls an operation performs, in order.\<close>

datatype os_call =
    OsOpen string bool int   \<comment> \<open>path, writable, the descriptor returned (negative: failure)\<close>
  | OsClose int

text \<open>The constructors: no reference, no descriptor.\<close>

definition image_new :: "rld_file \<Rightarrow> image" where
  "image_new f = \<lparr>img_name = f, img_refs = 0, img_fd = - 1\<rparr>"

text \<open>The largest \<^verbatim>\<open>int\<close> (32 bits).\<close>

definition INT_MAX :: int where
  "INT_MAX = 2 ^ 31 - 1"

text \<open>
  \<^verbatim>\<open>image::open (bool writable)\<close>. \<open>os_fd\<close> is what \<^verbatim>\<open>::open\<close> returns if it is called.
  The result is the exception thrown (if any), the image afterwards and the system calls
  made. \<^verbatim>\<open>references_\<close> is an \<^verbatim>\<open>int\<close>: \<^verbatim>\<open>++references_\<close> at \<^verbatim>\<open>INT_MAX\<close> overflows, for
  which the language defines no result; the model stops there with \<open>Undefined\<close>.
\<close>

definition image_open :: "bool \<Rightarrow> int \<Rightarrow> image \<Rightarrow> rld_error option \<times> image \<times> os_call list" where
  "image_open writable os_fd img =
     (let path = file_path (img_name img) in
      if path = [] then (Some NoFileName, img, [])
      else if img_fd img < 0 then
        (if os_fd < 0
         then (Some (OsError (''open:'' @ path)), img\<lparr>img_fd := os_fd\<rparr>, [OsOpen path writable os_fd])
         else if img_refs img = INT_MAX
         then (Some Undefined, img\<lparr>img_fd := os_fd\<rparr>, [OsOpen path writable os_fd])
         else (None, img\<lparr>img_fd := os_fd, img_refs := img_refs img + 1\<rparr>,
               [OsOpen path writable os_fd]))
      else if img_refs img = INT_MAX then (Some Undefined, img, [])
      else (None, img\<lparr>img_refs := img_refs img + 1\<rparr>, []))"

definition image_close :: "image \<Rightarrow> image \<times> os_call list" where
  "image_close img =
     (if img_refs img > 0 then
        (let img1 = img\<lparr>img_refs := img_refs img - 1\<rparr> in
         if img_refs img1 = 0 then (img1\<lparr>img_fd := - 1\<rparr>, [OsClose (img_fd img)])
         else (img1, []))
      else (img, []))"

text \<open>A call made on an image by its users, and the run of a sequence of calls.\<close>

datatype image_call = Open bool int | Close

definition image_step :: "image \<Rightarrow> image_call \<Rightarrow> rld_error option \<times> image \<times> os_call list" where
  "image_step img c =
     (case c of
        Open writable os_fd \<Rightarrow> image_open writable os_fd img
      | Close \<Rightarrow> (None, image_close img))"

text \<open>
  One entry per call: the image before, the image after, the system calls made. The run
  ends before the first call whose behaviour is undefined; an exception (a missing file
  name, a failed \<^verbatim>\<open>::open\<close>) is caught by the caller, and the calls go on.
\<close>

fun image_run :: "image \<Rightarrow> image_call list \<Rightarrow> (image \<times> image \<times> os_call list) list" where
  "image_run img [] = []"
| "image_run img (c # cs) =
     (let (err, img', calls) = image_step img c
      in if err = Some Undefined then [] else (img, img', calls) # image_run img' cs)"

section \<open>Copying a file\<close>

definition COPY_FILE_BUFFER_SIZE :: nat where
  "COPY_FILE_BUFFER_SIZE = 8 * 1024"

text \<open>The transfers \<^verbatim>\<open>copy_file\<close> asks for: the count requested and the count returned.\<close>

datatype io_call = OsRead nat int | OsWrite nat int

text \<open>
  The loop of \<^verbatim>\<open>copy_file\<close>. The operating system's answers are a script, one pair per
  iteration: what \<^verbatim>\<open>::read\<close> returns and what \<^verbatim>\<open>::write\<close> returns. The result is \<open>None\<close>
  when the script ends before the loop does.
\<close>

fun copy_loop :: "(int \<times> int) list \<Rightarrow> nat \<Rightarrow> (rld_error + unit) option \<times> io_call list" where
  "copy_loop env sz =
     (if sz = 0 then (Some (Inr ()), [])
      else case env of
        [] \<Rightarrow> (None, [])
      | (r, w) # env' \<Rightarrow>
          (let l = (if sz < COPY_FILE_BUFFER_SIZE then sz else COPY_FILE_BUFFER_SIZE) in
           if r < 0 then (Some (Inl (OsError ''reading'')), [OsRead l r])
           else if r = 0 then (Some (Inl InputTooShort), [OsRead l r])
           else if w < 0 then (Some (Inl (OsError ''writing'')), [OsRead l r, OsWrite (nat r) w])
           else if w \<noteq> r then (Some (Inl OutputTruncated), [OsRead l r, OsWrite (nat r) w])
           else
             (let (res, io) = copy_loop env' (nat ((int sz - r) mod (int SIZE_MAX + 1)))
              in (res, OsRead l r # OsWrite (nat r) w # io))))"

declare copy_loop.simps [simp del]

text \<open>
  \<^verbatim>\<open>copy_file\<close> with its buffer. The heap is the list of the sizes of the live buffers:
  \<^verbatim>\<open>new\<close> adds one of \<^verbatim>\<open>COPY_FILE_BUFFER_SIZE\<close> bytes (or fails, \<open>alloc_ok\<close> false, and the
  handler deletes the null pointer, which does nothing), \<^verbatim>\<open>delete []\<close> removes it.
\<close>

definition copy_file ::
  "bool \<Rightarrow> (int \<times> int) list \<Rightarrow> nat \<Rightarrow> nat list \<Rightarrow> (rld_error + unit) option \<times> io_call list \<times> nat list" where
  "copy_file alloc_ok env sz heap =
     (if \<not> alloc_ok then (Some (Inl BadAlloc), [], heap)
      else
        (let heap1 = COPY_FILE_BUFFER_SIZE # heap;
             (res, io) = copy_loop env sz
         in case res of
              None \<Rightarrow> (None, io, heap1)
            | Some (Inl e) \<Rightarrow> (Some (Inl e), io, tl heap1)
            | Some (Inr u) \<Rightarrow> (Some (Inr u), io, tl heap1)))"

section \<open>Archives\<close>

definition rld_archive_ident :: string where
  "rld_archive_ident = ''!<arch>'' @ [NL]"

definition rld_archive_fname_size :: nat where
  "rld_archive_fname_size = 16"

definition rld_archive_size :: nat where
  "rld_archive_size = 48"

definition rld_archive_size_size :: nat where
  "rld_archive_size_size = 10"

definition rld_archive_magic :: nat where
  "rld_archive_magic = 58"

definition rld_archive_fhdr_size :: nat where
  "rld_archive_fhdr_size = 60"

definition rld_archive_max_file_size :: nat where
  "rld_archive_max_file_size = 1024"

text \<open>
  An object file of the cache: an image, and the archive that holds it (the path of the
  archive stands for the pointer).
\<close>

record object =
  o_image :: image
  o_archive :: "string option"

text \<open>\<^verbatim>\<open>archive::archive (path)\<close>, on \<^verbatim>\<open>image (path, false)\<close>.\<close>

definition archive_new :: "nat \<Rightarrow> nat option \<Rightarrow> string \<Rightarrow> rld_error + image" where
  "archive_new drive_sep st path =
     (let img = image_new (file_set drive_sep st path False file_empty) in
      if \<not> file_is_valid (img_name img) then Inl NameEmpty
      else if \<not> file_is_archive (img_name img) then Inl (NotAnArchive (oname (img_name img)))
      else Inr img)"

text \<open>\<^verbatim>\<open>object::object (archive&, file&)\<close>.\<close>

definition object_new_member :: "image \<Rightarrow> rld_file \<Rightarrow> rld_error + object" where
  "object_new_member ar n =
     (let img = image_new n in
      if \<not> file_is_valid (img_name img) then Inl NameEmpty
      else Inr \<lparr>o_image = img, o_archive = Some (file_path (img_name ar))\<rparr>)"

text \<open>
  \<^verbatim>\<open>object::object (path)\<close>, on \<^verbatim>\<open>image (path)\<close>: the second argument of the image
  constructor is left to its default, which the class declaration (not among the
  sources) gives; it is the argument \<open>is_object\<close> here.
\<close>

definition object_new_path :: "nat \<Rightarrow> nat option \<Rightarrow> bool \<Rightarrow> string \<Rightarrow> rld_error + object" where
  "object_new_path drive_sep st is_object path =
     (let img = image_new (file_set drive_sep st path is_object file_empty) in
      if \<not> file_is_valid (img_name img) then Inl NameEmpty
      else Inr \<lparr>o_image = img, o_archive = None\<rparr>)"

text \<open>
  \<^verbatim>\<open>archive::write_header\<close>: the 60 bytes it hands to \<^verbatim>\<open>write\<close>. The numbers arrive at
  \<^verbatim>\<open>set_number\<close> as \<^verbatim>\<open>uint32_t\<close>.
\<close>

definition write_header :: "string \<Rightarrow> u32 \<Rightarrow> u32 \<Rightarrow> u32 \<Rightarrow> u32 \<Rightarrow> u32 \<Rightarrow> string" where
  "write_header name mtime uid gid mode sz =
     (let h0 = replicate rld_archive_fhdr_size (CHR '' '');
          len = (if length name > rld_archive_fname_size then rld_archive_fname_size else length name);
          h1 = overwrite h0 0 (take len name);
          h2 = set_number mtime h1 16 12 False;
          h3 = set_number uid h2 28 6 False;
          h4 = set_number gid h3 34 6 False;
          h5 = set_number mode h4 40 8 True;
          h6 = set_number sz h5 rld_archive_size rld_archive_size_size False
      in h6[rld_archive_magic := CHR 0x60, rld_archive_magic + 1 := CHR 0x0A])"

text \<open>
  A member handed to \<^verbatim>\<open>archive::create\<close>: the object's name and size, and what the
  operating system answers while the member is written: whether opening the object
  succeeds, what \<^verbatim>\<open>::write\<close> returns for the header, whether \<^verbatim>\<open>obj.seek (0)\<close> succeeds, and
  how \<^verbatim>\<open>copy_file\<close> ends (\<open>None\<close>: it has copied all the bytes; otherwise its exception
  and the number of bytes it had written to the archive before).
\<close>

record member =
  m_oname :: string
  m_size :: nat
  m_opens :: bool
  m_header_write :: int
  m_seeks :: bool
  m_copy :: "(rld_error \<times> nat) option"

text \<open>
  The answers for the archive itself: whether \<^verbatim>\<open>open (true)\<close> succeeds, whether the
  \<^verbatim>\<open>lseek\<close> of \<^verbatim>\<open>seek_write\<close> succeeds, and what \<^verbatim>\<open>::write\<close> returns for the identifier,
  for the header of the extended name table and for the table.
\<close>

record ar_env =
  a_opens :: bool
  a_seeks :: bool
  a_ident_write :: int
  a_table_header_write :: int
  a_table_write :: int

text \<open>
  What \<^verbatim>\<open>archive::create\<close> has written to the archive, in order: bytes of its own, and
  bytes copied from an object (the object's name and their number).
\<close>

datatype ar_write = Bytes string | CopyOf string nat

text \<open>
  \<^verbatim>\<open>image::write\<close> on the archive: \<open>w\<close> is what \<^verbatim>\<open>::write\<close> returns, the number of bytes
  written or a negative number, on which \<^verbatim>\<open>image::write\<close> throws. Its callers in
  \<^verbatim>\<open>archive::create\<close> and \<^verbatim>\<open>archive::write_header\<close> do not look at the count.
\<close>

definition archive_write :: "string \<Rightarrow> int \<Rightarrow> ar_write list \<Rightarrow> rld_error + ar_write list" where
  "archive_write buffer w out =
     (if w < 0 then Inl (OsError ''write'') else Inr (out @ [Bytes (take (nat w) buffer)]))"

text \<open>The first loop of \<^verbatim>\<open>archive::create\<close>: the GNU extended file names.\<close>

definition extended_file_names :: "char \<Rightarrow> member list \<Rightarrow> string" where
  "extended_file_names sep ms =
     concat (map (\<lambda>m. let on = basename sep (m_oname m)
                      in if length on > rld_archive_fname_size then on @ [NL] else []) ms)"

text \<open>The name \<^verbatim>\<open>archive::create\<close> passes to \<^verbatim>\<open>write_header\<close> for a member.\<close>

definition member_name :: "char \<Rightarrow> string \<Rightarrow> member \<Rightarrow> rld_error + string" where
  "member_name sep efn m =
     (let on = basename sep (m_oname m) in
      if length on > rld_archive_fname_size then
        (case find_first_of efn (on @ [NL]) of
           None \<Rightarrow> Inl ExtendedNameNotFound
         | Some pos \<Rightarrow> Inr (CHR ''/'' # digits_of 10 pos))
      else Inr on)"

text \<open>The C++ literal \<^verbatim>\<open>0666\<close> is octal.\<close>

definition mode_0666 :: u32 where
  "mode_0666 = 6 * 64 + 6 * 8 + 6"

fun create_members ::
  "char \<Rightarrow> string \<Rightarrow> member list \<Rightarrow> ar_write list \<Rightarrow> rld_error option \<times> ar_write list" where
  "create_members sep efn [] out = (None, out)"
| "create_members sep efn (m # ms) out =
     (if \<not> m_opens m then (Some (OsError ''open''), out)
      else case member_name sep efn m of
        Inl e \<Rightarrow> (Some e, out)
      | Inr on \<Rightarrow>
          (case archive_write (write_header on 0 0 0 mode_0666 (of_nat (m_size m)))
                  (m_header_write m) out of
             Inl e \<Rightarrow> (Some e, out)
           | Inr out1 \<Rightarrow>
               if \<not> m_seeks m then (Some (OsError ''lseek''), out1)
               else case m_copy m of
                 Some (e, n) \<Rightarrow> (Some e, out1 @ [CopyOf (m_oname m) n])
               | None \<Rightarrow> create_members sep efn ms (out1 @ [CopyOf (m_oname m) (m_size m)])))"

text \<open>\<^verbatim>\<open>archive::create\<close>: the exception, if any, and what was written to the archive.\<close>

definition create :: "char \<Rightarrow> ar_env \<Rightarrow> member list \<Rightarrow> rld_error option \<times> ar_write list" where
  "create sep env ms =
     (if \<not> a_opens env then (Some (OsError ''open''), [])
      else if \<not> a_seeks env then (Some (OsError ''lseek''), [])
      else case archive_write rld_archive_ident (a_ident_write env) [] of
        Inl e \<Rightarrow> (Some e, [])
      | Inr out0 \<Rightarrow>
          (let efn = extended_file_names sep ms in
           if efn \<noteq> [] then
             (case archive_write (write_header ''//'' 0 0 0 0 (of_nat (length efn)))
                     (a_table_header_write env) out0 of
                Inl e \<Rightarrow> (Some e, out0)
              | Inr out1 \<Rightarrow>
                  (case archive_write efn (a_table_write env) out1 of
                     Inl e \<Rightarrow> (Some e, out1)
                   | Inr out2 \<Rightarrow> create_members sep efn ms out2))
           else create_members sep efn ms out0))"

text \<open>
  The scan of \<^verbatim>\<open>archive::add_object\<close>: from the pointer it is given, up to the first NUL
  or \<^verbatim>\<open>'/'\<close>. \<open>mem\<close> is the array the pointer points into, from the pointer to the array's
  end; a scan that finds no terminator there reads outside the array.
\<close>

fun scan_name :: "string \<Rightarrow> rld_error + string" where
  "scan_name [] = Inl Undefined"
| "scan_name (c # cs) =
     (if c = NUL \<or> c = CHR ''/'' then Inr []
      else case scan_name cs of Inl e \<Rightarrow> Inl e | Inr str \<Rightarrow> Inr (c # str))"

definition add_object ::
  "image \<Rightarrow> (string \<times> object) list \<Rightarrow> string \<Rightarrow> int \<Rightarrow> nat \<Rightarrow> rld_error + (string \<times> object) list" where
  "add_object ar objs mem off sz =
     (case scan_name mem of
        Inl e \<Rightarrow> Inl e
      | Inr str \<Rightarrow>
          (let n = \<lparr>aname = file_path (img_name ar), oname = str, f_offset = off, f_size = sz\<rparr> in
           case object_new_member ar n of
             Inl e \<Rightarrow> Inl e
           | Inr ob \<Rightarrow> Inr (AList.update (file_full n) ob objs)))"

text \<open>
  \<^verbatim>\<open>image::seek_read\<close> on a regular file whose bytes are \<open>content\<close>: \<^verbatim>\<open>lseek\<close> fails on a
  negative position, and \<^verbatim>\<open>read\<close> returns the bytes there are, up to the count asked
  for. The result says whether the full count arrived, and gives the bytes read.
\<close>

definition seek_read :: "image \<Rightarrow> string \<Rightarrow> int \<Rightarrow> nat \<Rightarrow> rld_error + bool \<times> string" where
  "seek_read img content off n =
     (let pos = f_offset (img_name img) + off in
      if pos < 0 then Inl (OsError ''lseek'')
      else (let got = take n (drop (nat pos) content) in Inr (length got = n, got)))"

text \<open>\<^verbatim>\<open>archive::read_header\<close>: \<open>None\<close> is the result \<^verbatim>\<open>false\<close>.\<close>

definition read_header :: "image \<Rightarrow> string \<Rightarrow> int \<Rightarrow> rld_error + string option" where
  "read_header ar content off =
     (case seek_read ar content off rld_archive_fhdr_size of
        Inl e \<Rightarrow> Inl e
      | Inr (full, header) \<Rightarrow>
          if \<not> full then Inr None
          else if header ! rld_archive_magic \<noteq> CHR 0x60 \<or> header ! (rld_archive_magic + 1) \<noteq> CHR 0x0A
          then Inl (InvalidHeaderMagic off)
          else Inr (Some header))"

text \<open>A value stored into an \<^verbatim>\<open>off_t\<close>: 64 bits, two's complement.\<close>

definition to_off_t :: "int \<Rightarrow> int" where
  "to_off_t i = sint (word_of_int i :: u64)"

text \<open>The size of a member's data from its header, rounded up to an even number.\<close>

definition member_size :: "string \<Rightarrow> u64" where
  "member_size header =
     (scan_decimal (drop rld_archive_size header) rld_archive_size_size + 1) AND NOT 1"

text \<open>
  The inner loop of \<^verbatim>\<open>archive::load_objects\<close>, which looks for the extended file name
  table further on in the archive. \<open>None\<close>: the loop has not ended within the given number
  of iterations.
\<close>

fun find_extended :: "nat \<Rightarrow> image \<Rightarrow> string \<Rightarrow> int \<Rightarrow> string \<Rightarrow> (rld_error + int) option" where
  "find_extended 0 ar content off header = None"
| "find_extended (Suc k) ar content off header =
     (let off1 = to_off_t (off + uint (member_size header) + int rld_archive_fhdr_size) in
      case read_header ar content off1 of
        Inl e \<Rightarrow> Some (Inl e)
      | Inr None \<Rightarrow> Some (Inl NoExtendedNames)
      | Inr (Some h) \<Rightarrow>
          if h ! 0 = CHR ''/'' \<and> h ! 1 = CHR ''/''
          then Some (Inr (off1 + int rld_archive_fhdr_size))
          else find_extended k ar content off1 h)"

text \<open>
  The loop of \<^verbatim>\<open>archive::load_objects\<close>; \<open>efn\<close> is \<^verbatim>\<open>extended_file_names\<close>. The name of a
  member with a GNU extended name is scanned in the bytes \<^verbatim>\<open>seek_read\<close> has put into the
  local array \<^verbatim>\<open>cname\<close>; the name of any other member in the local array \<^verbatim>\<open>header\<close>.
\<close>

fun load_loop ::
  "nat \<Rightarrow> image \<Rightarrow> string \<Rightarrow> int \<Rightarrow> int \<Rightarrow> (string \<times> object) list \<Rightarrow>
     (rld_error + (string \<times> object) list) option" where
  "load_loop 0 ar content efn offset objs = None"
| "load_loop (Suc k) ar content efn offset objs =
     (case read_header ar content offset of
        Inl e \<Rightarrow> Some (Inl e)
      | Inr None \<Rightarrow> Some (Inr objs)
      | Inr (Some header) \<Rightarrow>
          (let sz = member_size header;
               data = offset + int rld_archive_fhdr_size;
               next = to_off_t (offset + uint sz + int rld_archive_fhdr_size)
           in
           if header ! 0 = CHR ''/'' then
             (if header ! 1 = CHR '' '' then load_loop k ar content efn next objs
              else if header ! 1 = CHR ''/'' then load_loop k ar content data next objs
              else if header ! 1 \<in> set ''0123456789'' then
                (let extended_off = to_off_t (uint (scan_decimal (drop 1 header) rld_archive_fname_size)) in
                 case (if efn = 0 then find_extended k ar content offset header else Some (Inr efn)) of
                   None \<Rightarrow> None
                 | Some (Inl e) \<Rightarrow> Some (Inl e)
                 | Some (Inr efn1) \<Rightarrow>
                     if efn1 \<noteq> 0 then
                       (case seek_read ar content (efn1 + extended_off) rld_archive_max_file_size of
                          Inl e \<Rightarrow> Some (Inl e)
                        | Inr (full, cname) \<Rightarrow>
                            (case add_object ar objs cname data (unat sz) of
                               Inl e \<Rightarrow> Some (Inl e)
                             | Inr objs1 \<Rightarrow> load_loop k ar content efn1 next objs1))
                     else load_loop k ar content efn1 next objs)
              else load_loop k ar content efn next objs)
           else
             (case add_object ar objs header data (unat sz) of
                Inl e \<Rightarrow> Some (Inl e)
              | Inr objs1 \<Rightarrow> load_loop k ar content efn next objs1)))"

definition load_objects ::
  "nat \<Rightarrow> image \<Rightarrow> string \<Rightarrow> (string \<times> object) list \<Rightarrow> (rld_error + (string \<times> object) list) option" where
  "load_objects fuel ar content objs = load_loop fuel ar content 0 (int (length rld_archive_ident)) objs"

section \<open>The RAP format: section records\<close>

datatype sections = rap_text | rap_const | rap_ctor | rap_dtor | rap_data | rap_bss

text \<open>The values of the enumeration.\<close>

fun sections_value :: "sections \<Rightarrow> nat" where
  "sections_value rap_text = 0"
| "sections_value rap_const = 1"
| "sections_value rap_ctor = 2"
| "sections_value rap_dtor = 3"
| "sections_value rap_data = 4"
| "sections_value rap_bss = 5"

definition rap_secs :: nat where
  "rap_secs = 6"

definition section_names :: "string list" where
  "section_names = [''.text'', ''.const'', ''.ctor'', ''.dtor'', ''.data'', ''.bss'']"

record rap_section =
  s_name :: string
  s_size :: u32
  s_offset :: u32
  s_align :: u32

definition section_new :: rap_section where
  "section_new = \<lparr>s_name = [], s_size = 0, s_offset = 0, s_align = 0\<rparr>"

text \<open>
  \<^verbatim>\<open>section::operator +=\<close>. The mask is computed in \<^verbatim>\<open>int\<close>: \<^verbatim>\<open>1 << (align - 1)\<close> shifts
  by the \<^verbatim>\<open>uint32_t\<close> value \<open>align - 1\<close>, which is \<open>2^32 - 1\<close> when \<open>align\<close> is 0 and at
  least 32 when \<open>align\<close> is above 32, and \<^verbatim>\<open>(1 << 31) - 1\<close> overflows \<^verbatim>\<open>int\<close> when \<open>align\<close>
  is 32: for these the language defines no result. For \<open>align\<close> from 1 to 31 the mask
  and the increment \<^verbatim>\<open>1 << align\<close>, converted to \<^verbatim>\<open>uint32_t\<close>, are the powers of two below.
\<close>

definition section_add :: "rap_section \<Rightarrow> rap_section \<Rightarrow> rld_error + rap_section" where
  "section_add g sec =
     (if s_size sec \<noteq> 0 then
        (if s_align g \<noteq> 0 \<and> s_align g \<noteq> s_align sec then Inl (AlignmentMismatch (s_name g))
         else
           (let a = (if s_align g = 0 then s_align sec else s_align g) in
            if s_size g \<noteq> 0 \<and> a = 0 then Inl (InvalidAlignment (s_name g))
            else if a = 0 \<or> 32 \<le> a then Inl Undefined
            else
              (let off = s_offset sec + s_size sec;
                   mask = push_bit (unat a - 1) 1 - 1
               in Inr (g\<lparr>s_size := s_size g + s_size sec,
                         s_offset := (if off AND mask \<noteq> 0
                                      then (off AND NOT mask) + push_bit (unat a) 1
                                      else off),
                         s_align := a\<rparr>))))
      else Inr g)"

text \<open>
  The rounding as the specification words it: \<open>mask = (1 << (align - 1)) - 1\<close>; if
  \<open>offset & mask\<close> then \<open>offset = (offset & ~mask) + (1 << align)\<close>.
\<close>

definition documented_round :: "u32 \<Rightarrow> u32 \<Rightarrow> u32" where
  "documented_round a off =
     (let mask = 2 ^ (unat a - 1) - 1
      in if off AND mask \<noteq> 0 then (off AND NOT mask) + 2 ^ unat a else off)"

text \<open>Folding two records into a group, as \<^verbatim>\<open>g += s1; g += s2\<close>.\<close>

definition section_add2 :: "rap_section \<Rightarrow> rap_section \<Rightarrow> rap_section \<Rightarrow> rld_error + rap_section" where
  "section_add2 g s1 s2 =
     (case section_add g s1 of Inl e \<Rightarrow> Inl e | Inr g1 \<Rightarrow> section_add g1 s2)"

section \<open>The RAP format: objects\<close>

text \<open>
  What the ELF reader reports of a section and of a symbol (\<^verbatim>\<open>files::section\<close>,
  \<^verbatim>\<open>symbols::symbol\<close>; their declarations are not among the sources).
\<close>

record files_section =
  fs_name :: string
  fs_index :: u32
  fs_size :: nat
  fs_alignment :: u32
  fs_offset :: int

record symbol =
  sym_name :: string
  sym_type :: int
  sym_binding :: int
  sym_index :: u32
  sym_value :: u32
  sym_info :: u32

text \<open>The symbol types and bindings of the ELF specification (\<^verbatim>\<open>elf.h\<close>).\<close>

definition STT_OBJECT :: int where
  "STT_OBJECT = 1"

definition STT_FUNC :: int where
  "STT_FUNC = 2"

definition STB_GLOBAL :: int where
  "STB_GLOBAL = 1"

definition STB_WEAK :: int where
  "STB_WEAK = 2"

text \<open>
  An input object as the RAP builder sees it: whether it is valid, its full name, the
  ELF reader's answers to the section queries of \<^verbatim>\<open>rap::object::object\<close> (by type and
  flags for text, const, data, bss and the symbol table; by name for the others), and
  its external symbols.
\<close>

record files_object =
  fo_valid :: bool
  fo_full :: string
  fo_text :: "files_section list"
  fo_const :: "files_section list"
  fo_data :: "files_section list"
  fo_bss :: "files_section list"
  fo_symtab :: "files_section list"
  fo_named :: "string \<Rightarrow> files_section list"
  fo_external_symbols :: "symbol list"

text \<open>
  Modelled from the spec: \<^verbatim>\<open>files::sum_sizes\<close> and \<^verbatim>\<open>files::find\<close> are not among the
  sources. The first is the sum of the sizes of the sections; the second the first
  section of a list with the given index, if any.
\<close>

definition sum_sizes :: "files_section list \<Rightarrow> nat" where
  "sum_sizes secs = sum_list (map fs_size secs)"

definition files_find :: "files_section list \<Rightarrow> u32 \<Rightarrow> files_section option" where
  "files_find secs index = find (\<lambda>sec. fs_index sec = index) secs"

record rap_object =
  ro_obj :: files_object
  ro_text :: "files_section list"
  ro_const :: "files_section list"
  ro_ctor :: "files_section list"
  ro_dtor :: "files_section list"
  ro_data :: "files_section list"
  ro_bss :: "files_section list"
  ro_relocs :: "files_section list"
  ro_symtab :: "files_section list"
  ro_strtab :: "files_section list"
  ro_secs :: "rap_section list"
  ro_symtab_size :: u32
  ro_strtab_size :: u32
  ro_relocs_size :: u32

text \<open>One entry of \<^verbatim>\<open>secs\<close>: the name, the summed size, the alignment of the first section.\<close>

definition group_record :: "string \<Rightarrow> files_section list \<Rightarrow> rap_section" where
  "group_record name secs =
     \<lparr>s_name = name, s_size = of_nat (sum_sizes secs), s_offset = 0,
      s_align = (case secs of [] \<Rightarrow> 0 | sec # rest \<Rightarrow> fs_alignment sec)\<rparr>"

text \<open>\<^verbatim>\<open>rap::object::object (files::object&)\<close>.\<close>

definition rap_object_new :: "files_object \<Rightarrow> rap_object" where
  "rap_object_new obj =
     (let text_secs = fo_text obj;
          const_secs = fo_const obj;
          ctor = fo_named obj ''.ctors'';
          dtor = fo_named obj ''.dtors'';
          data = fo_data obj;
          bss = fo_bss obj;
          symtab = fo_symtab obj;
          strtab = fo_named obj ''.strtab'';
          relocs = concat (map (\<lambda>sec. fo_named obj (''.rel'' @ fs_name sec) @
                                      fo_named obj (''.rela'' @ fs_name sec)) text_secs)
      in \<lparr>ro_obj = obj, ro_text = text_secs, ro_const = const_secs, ro_ctor = ctor,
          ro_dtor = dtor, ro_data = data, ro_bss = bss, ro_relocs = relocs,
          ro_symtab = symtab, ro_strtab = strtab,
          ro_secs = map (\<lambda>(n, l). group_record n l)
                      (zip section_names [text_secs, const_secs, ctor, dtor, data, bss]),
          ro_symtab_size = of_nat (sum_sizes symtab),
          ro_strtab_size = of_nat (sum_sizes strtab),
          ro_relocs_size = of_nat (sum_sizes relocs)\<rparr>)"

text \<open>\<^verbatim>\<open>rap::object::find\<close>.\<close>

definition rap_find :: "rap_object \<Rightarrow> u32 \<Rightarrow> rld_error + sections" where
  "rap_find ro index =
     (if files_find (ro_text ro) index \<noteq> None then Inr rap_text
      else if files_find (ro_const ro) index \<noteq> None then Inr rap_const
      else if files_find (ro_ctor ro) index \<noteq> None then Inr rap_ctor
      else if files_find (ro_dtor ro) index \<noteq> None then Inr rap_dtor
      else if files_find (ro_data ro) index \<noteq> None then Inr rap_data
      else if files_find (ro_bss ro) index \<noteq> None then Inr rap_bss
      else Inl (SectionIndexNotFound (fo_full (ro_obj ro))))"

section \<open>The RAP format: the image\<close>

record external =
  e_name :: u32
  e_sec :: sections
  e_value :: u32
  e_data :: u32

definition external_rap_size :: u32 where
  "external_rap_size = 4 * 3"

record rap_image =
  ri_objs :: "rap_object list"
  ri_secs :: "rap_section list"
  ri_externs :: "external list"
  ri_symtab_size :: u32
  ri_strtab :: string
  ri_relocs_size :: u32

text \<open>\<^verbatim>\<open>rap::image::image ()\<close>.\<close>

definition rap_image_new :: rap_image where
  "rap_image_new =
     \<lparr>ri_objs = [], ri_secs = map (\<lambda>n. section_new\<lparr>s_name := n\<rparr>) section_names,
      ri_externs = [], ri_symtab_size = 0, ri_strtab = [], ri_relocs_size = 0\<rparr>"

text \<open>Whether \<^verbatim>\<open>image::layout\<close> takes a symbol as an external.\<close>

definition accepted :: "symbol \<Rightarrow> bool" where
  "accepted smb =
     ((sym_type smb = STT_OBJECT \<or> sym_type smb = STT_FUNC) \<and>
      (sym_binding smb = STB_GLOBAL \<or> sym_binding smb = STB_WEAK))"

text \<open>The first loop of \<^verbatim>\<open>image::layout\<close>: one RAP object per application object.\<close>

fun layout_objects :: "files_object list \<Rightarrow> rap_object list \<Rightarrow> rld_error + rap_object list" where
  "layout_objects [] objs = Inr objs"
| "layout_objects (app_obj # rest) objs =
     (if \<not> fo_valid app_obj then Inl (NotValid (fo_full app_obj))
      else layout_objects rest (objs @ [rap_object_new app_obj]))"

text \<open>The six \<^verbatim>\<open>secs[s] += obj.secs[s]\<close>, in the order of the enumeration.\<close>

fun add_sections :: "rap_section list \<Rightarrow> rap_section list \<Rightarrow> rld_error + rap_section list" where
  "add_sections (g # gs) (sec # ss) =
     (case section_add g sec of
        Inl e \<Rightarrow> Inl e
      | Inr g1 \<Rightarrow> (case add_sections gs ss of Inl e \<Rightarrow> Inl e | Inr gs1 \<Rightarrow> Inr (g1 # gs1)))"
| "add_sections gs ss = Inr gs"

text \<open>
  The loop over the external symbols of one object; the state is \<^verbatim>\<open>externs\<close>,
  \<^verbatim>\<open>symtab_size\<close> and \<^verbatim>\<open>strtab\<close>.
\<close>

fun collect_symbols ::
  "rap_object \<Rightarrow> symbol list \<Rightarrow> external list \<times> u32 \<times> string \<Rightarrow>
     rld_error + external list \<times> u32 \<times> string" where
  "collect_symbols ro [] st = Inr st"
| "collect_symbols ro (smb # esyms) (externs, symtab_size, strtab) =
     (if accepted smb then
        (case rap_find ro (sym_index smb) of
           Inl e \<Rightarrow> Inl e
         | Inr sec \<Rightarrow>
             collect_symbols ro esyms
               (externs @ [\<lparr>e_name = of_nat (length strtab + 2), e_sec = sec,
                            e_value = sym_value smb, e_data = sym_info smb\<rparr>],
                symtab_size + external_rap_size,
                strtab @ sym_name smb @ [NUL]))
      else collect_symbols ro esyms (externs, symtab_size, strtab))"

text \<open>
  The second loop of \<^verbatim>\<open>image::layout\<close>, over the RAP objects of the image. Its body
  sets \<^verbatim>\<open>symtab_size\<close> to 0 and clears \<^verbatim>\<open>strtab\<close> before it reads the symbols of the object.
\<close>

fun layout_loop :: "rap_object list \<Rightarrow> rap_image \<Rightarrow> rld_error + rap_image" where
  "layout_loop [] img = Inr img"
| "layout_loop (ro # rest) img =
     (case add_sections (ri_secs img) (ro_secs ro) of
        Inl e \<Rightarrow> Inl e
      | Inr secs1 \<Rightarrow>
          (case collect_symbols ro (fo_external_symbols (ro_obj ro)) (ri_externs img, 0, []) of
             Inl e \<Rightarrow> Inl e
           | Inr (externs, symtab_size, strtab) \<Rightarrow>
               layout_loop rest
                 (img\<lparr>ri_secs := secs1, ri_externs := externs, ri_symtab_size := symtab_size,
                      ri_strtab := strtab,
                      ri_relocs_size := ri_relocs_size img + ro_relocs_size ro\<rparr>)))"

text \<open>\<^verbatim>\<open>image::layout\<close>.\<close>

definition layout :: "rap_image \<Rightarrow> files_object list \<Rightarrow> rld_error + rap_image" where
  "layout img app_objects =
     (case layout_objects app_objects (ri_objs img) of
        Inl e \<Rightarrow> Inl e
      | Inr objs \<Rightarrow>
          layout_loop objs
            (img\<lparr>ri_objs := objs,
                 ri_secs := map (\<lambda>sec. sec\<lparr>s_size := 0, s_offset := 0, s_align := 0\<rparr>) (ri_secs img)\<rparr>))"

text \<open>
  What \<^verbatim>\<open>image::write\<close> needs from outside the sources: how the compressor lays a
  \<^verbatim>\<open>uint32_t\<close> into the stream (\<open>c_u32\<close>), what \<^verbatim>\<open>compressor::write (obj, offset, size)\<close>
  pulls from an object file (\<open>c_pull\<close>), and whether \<^verbatim>\<open>obj.open ()\<close>, \<^verbatim>\<open>obj.begin ()\<close> and
  \<^verbatim>\<open>obj.end ()\<close> throw.
\<close>

record compressor =
  c_u32 :: "u32 \<Rightarrow> string"
  c_pull :: "files_object \<Rightarrow> int \<Rightarrow> nat \<Rightarrow> rld_error + string"
  c_open :: "files_object \<Rightarrow> rld_error option"
  c_begin :: "files_object \<Rightarrow> rld_error option"
  c_end :: "files_object \<Rightarrow> rld_error option"

text \<open>
  The stream is the text inserted into the compressor so far; an exception leaves what
  was inserted before it. A writer returns the stream and the exception, if any.
\<close>

fun pull_sections ::
  "compressor \<Rightarrow> files_object \<Rightarrow> files_section list \<Rightarrow> string \<Rightarrow> string \<times> rld_error option" where
  "pull_sections cmpr obj [] out = (out, None)"
| "pull_sections cmpr obj (sec # secs) out =
     (case c_pull cmpr obj (fs_offset sec) (fs_size sec) of
        Inl e \<Rightarrow> (out, Some e)
      | Inr bytes \<Rightarrow> pull_sections cmpr obj secs (out @ bytes))"

text \<open>\<^verbatim>\<open>image::write (comp, obj, secs)\<close>.\<close>

definition write_object ::
  "compressor \<Rightarrow> files_object \<Rightarrow> files_section list \<Rightarrow> string \<Rightarrow> string \<times> rld_error option" where
  "write_object cmpr obj secs out =
     (case c_open cmpr obj of
        Some e \<Rightarrow> (out, Some e)
      | None \<Rightarrow>
          (case c_begin cmpr obj of
             Some e \<Rightarrow> (out, Some e)
           | None \<Rightarrow>
               (case pull_sections cmpr obj secs out of
                  (out1, Some e) \<Rightarrow> (out1, Some e)
                | (out1, None) \<Rightarrow> (out1, c_end cmpr obj))))"

text \<open>\<^verbatim>\<open>section_writer::operator ()\<close>.\<close>

definition section_writer ::
  "compressor \<Rightarrow> sections \<Rightarrow> rap_object \<Rightarrow> string \<Rightarrow> string \<times> rld_error option" where
  "section_writer cmpr sec ro out =
     (case sec of
        rap_text \<Rightarrow> write_object cmpr (ro_obj ro) (ro_text ro) out
      | rap_const \<Rightarrow> write_object cmpr (ro_obj ro) (ro_const ro) out
      | rap_ctor \<Rightarrow> write_object cmpr (ro_obj ro) (ro_ctor ro) out
      | rap_dtor \<Rightarrow> write_object cmpr (ro_obj ro) (ro_dtor ro) out
      | rap_data \<Rightarrow> write_object cmpr (ro_obj ro) (ro_data ro) out
      | rap_bss \<Rightarrow> (out, None))"

text \<open>\<^verbatim>\<open>std::for_each (objs.begin (), objs.end (), section_writer (...))\<close>.\<close>

fun for_each_object ::
  "compressor \<Rightarrow> sections \<Rightarrow> rap_object list \<Rightarrow> string \<Rightarrow> string \<times> rld_error option" where
  "for_each_object cmpr sec [] out = (out, None)"
| "for_each_object cmpr sec (ro # rest) out =
     (case section_writer cmpr sec ro out of
        (out1, Some e) \<Rightarrow> (out1, Some e)
      | (out1, None) \<Rightarrow> for_each_object cmpr sec rest out1)"

fun for_each_group ::
  "compressor \<Rightarrow> sections list \<Rightarrow> rap_object list \<Rightarrow> string \<Rightarrow> string \<times> rld_error option" where
  "for_each_group cmpr [] objs out = (out, None)"
| "for_each_group cmpr (sec # secs) objs out =
     (case for_each_object cmpr sec objs out of
        (out1, Some e) \<Rightarrow> (out1, Some e)
      | (out1, None) \<Rightarrow> for_each_group cmpr secs objs out1)"

text \<open>The three words of an external in the stream.\<close>

definition external_words :: "compressor \<Rightarrow> external \<Rightarrow> string" where
  "external_words cmpr ext =
     c_u32 cmpr (push_bit 16 (of_nat (sections_value (e_sec ext))) OR e_data ext) @
     c_u32 cmpr (e_name ext) @ c_u32 cmpr (e_value ext)"

text \<open>
  The header of \<^verbatim>\<open>image::write (comp, init, fini)\<close>: the stream up to and including the
  section details, and the string table with the two labels added. The machine type,
  the data type and the elf_class of the ELF files are arguments (\<^verbatim>\<open>elf::object_machine_type\<close>
  and its siblings are not among the sources).
\<close>

definition write_head ::
  "compressor \<Rightarrow> u32 \<Rightarrow> u32 \<Rightarrow> u32 \<Rightarrow> rap_image \<Rightarrow> string \<Rightarrow> string \<Rightarrow> string \<times> string" where
  "write_head cmpr machine data_type elf_class img init fini =
     (let out1 = c_u32 cmpr machine @ c_u32 cmpr data_type @ c_u32 cmpr elf_class;
          out2 = out1 @ c_u32 cmpr (of_nat (length (ri_strtab img)));
          strtab1 = ri_strtab img @ init @ [NUL];
          out3 = out2 @ c_u32 cmpr (of_nat (length strtab1));
          strtab2 = strtab1 @ fini @ [NUL];
          out4 = out3 @ c_u32 cmpr (ri_symtab_size img) @ c_u32 cmpr (of_nat (length strtab2)) @
                 c_u32 cmpr 0;
          out5 = out4 @ concat (map (\<lambda>sec. c_u32 cmpr (s_size sec) @ c_u32 cmpr (s_align sec) @
                                           c_u32 cmpr (s_offset sec)) (ri_secs img))
      in (out5, strtab2))"

text \<open>
  \<^verbatim>\<open>image::write (comp, init, fini)\<close>: the stream, the exception if one was thrown, and
  the image afterwards (its string table has grown). The string table goes into the
  stream as its bytes.
\<close>

definition image_write ::
  "compressor \<Rightarrow> u32 \<Rightarrow> u32 \<Rightarrow> u32 \<Rightarrow> rap_image \<Rightarrow> string \<Rightarrow> string \<Rightarrow>
     string \<times> rld_error option \<times> rap_image" where
  "image_write cmpr machine data_type elf_class img init fini =
     (let (out5, strtab2) = write_head cmpr machine data_type elf_class img init fini;
          img1 = img\<lparr>ri_strtab := strtab2\<rparr>
      in case for_each_group cmpr [rap_text, rap_const, rap_ctor, rap_dtor, rap_data] (ri_objs img) out5 of
           (out6, Some e) \<Rightarrow> (out6, Some e, img1)
         | (out6, None) \<Rightarrow>
             (out6 @ strtab2 @ concat (map (external_words cmpr) (ri_externs img)), None, img1))"

text \<open>
  The top-level \<^verbatim>\<open>rap::write\<close>: a fresh image, \<^verbatim>\<open>layout\<close>, then \<^verbatim>\<open>write\<close>. An exception of
  \<^verbatim>\<open>layout\<close> leaves the stream empty.
\<close>

definition rap_write ::
  "compressor \<Rightarrow> u32 \<Rightarrow> u32 \<Rightarrow> u32 \<Rightarrow> string \<Rightarrow> string \<Rightarrow> files_object list \<Rightarrow>
     string \<times> rld_error option \<times> rap_image" where
  "rap_write cmpr machine data_type elf_class init fini app_objects =
     (case layout rap_image_new app_objects of
        Inl e \<Rightarrow> ([], Some e, rap_image_new)
      | Inr img \<Rightarrow> image_write cmpr machine data_type elf_class img init fini)"

text \<open>
  The NUL-terminated string at a position of a string table, as the reader of a RAP file
  takes it; \<open>None\<close> when the position is outside the table or no NUL follows.
\<close>

definition string_at :: "string \<Rightarrow> nat \<Rightarrow> string option" where
  "string_at tab pos =
     (if pos < length tab \<and> NUL \<in> set (drop pos tab)
      then Some (takeWhile (\<lambda>c. c \<noteq> NUL) (drop pos tab))
      else None)"

section \<open>An example compressor\<close>

text \<open>
  For concrete runs: a compressor that lays a \<^verbatim>\<open>uint32_t\<close> into the stream as four bytes,
  most significant first, pulls bytes of value \<open>0x90\<close> from every object and never fails.
\<close>

definition u32_bytes :: "u32 \<Rightarrow> string" where
  "u32_bytes v = map (\<lambda>k. char_of (unat (drop_bit (8 * k) v))) [3, 2, 1, 0]"

definition plain_compressor :: compressor where
  "plain_compressor =
     \<lparr>c_u32 = u32_bytes, c_pull = (\<lambda>obj off n. Inr (replicate n (CHR 0x90))),
      c_open = (\<lambda>obj. None), c_begin = (\<lambda>obj. None), c_end = (\<lambda>obj. None)\<rparr>"

section \<open>Auxiliary predicates\<close>

text \<open>The invariant of an image, and what holds of one call made on it.\<close>

definition image_inv :: "image \<Rightarrow> bool" where
  "image_inv img = (0 \<le> img_refs img \<and> (0 \<le> img_fd img) = (0 < img_refs img))"

definition step_ok :: "image \<times> image \<times> os_call list \<Rightarrow> bool" where
  "step_ok e =
     (case e of (s, s', calls) \<Rightarrow>
        (0 \<le> img_fd s') = (0 < img_refs s') \<and>
        (img_refs s = 0 \<and> img_refs s' = 1) =
          (\<exists>p w d. calls = [OsOpen p w d] \<and> 0 \<le> d \<and> d = img_fd s') \<and>
        (img_refs s = 1 \<and> img_refs s' = 0) = (calls = [OsClose (img_fd s)]) \<and>
        length calls \<le> 1)"

text \<open>The names of the accepted symbols of an object, each followed by NUL.\<close>

definition names_of :: "symbol list \<Rightarrow> string" where
  "names_of esyms = concat (map (\<lambda>smb. sym_name smb @ [NUL]) (filter accepted esyms))"

text \<open>The characters that end the scan of a member name.\<close>

definition name_end :: "char \<Rightarrow> bool" where
  "name_end c = (c = NUL \<or> c = CHR ''/'')"

section \<open>Section records: folding\<close>

lemma section_add_zero_group:
  assumes "s_size g = 0" "s_offset g = 0" "s_align g = 0"
      and "s_size sec \<noteq> 0" "1 \<le> s_align sec" "s_align sec \<le> 31"
  shows "section_add g sec =
           Inr (g\<lparr>s_size := s_size sec,
                 s_offset := documented_round (s_align sec) (s_offset sec + s_size sec),
                 s_align := s_align sec\<rparr>)"
proof -
  have a: "s_align sec \<noteq> 0" "\<not> 32 \<le> s_align sec"
    using assms(5,6) by (auto simp: word_le_nat_alt unat_eq_0)
  show ?thesis
    using assms(1-4) a
    by (simp add: section_add_def documented_round_def Let_def push_bit_of_1)
qed

lemma section_add_same_align:
  assumes "s_align g = s_align sec" "s_size sec \<noteq> 0" "1 \<le> s_align sec" "s_align sec \<le> 31"
  shows "section_add g sec =
           Inr (g\<lparr>s_size := s_size g + s_size sec,
                 s_offset := documented_round (s_align sec) (s_offset sec + s_size sec),
                 s_align := s_align sec\<rparr>)"
proof -
  have a: "s_align sec \<noteq> 0" "\<not> 32 \<le> s_align sec"
    using assms(3,4) by (auto simp: word_le_nat_alt unat_eq_0)
  show ?thesis
    using assms(1,2) a
    by (simp add: section_add_def documented_round_def Let_def push_bit_of_1)
qed

lemma section_add_empty: "s_size sec = 0 \<Longrightarrow> section_add g sec = Inr g"
  by (simp add: section_add_def)

lemma section_add_mismatch:
  "s_size sec \<noteq> 0 \<Longrightarrow> s_align g \<noteq> 0 \<Longrightarrow> s_align g \<noteq> s_align sec \<Longrightarrow>
   section_add g sec = Inl (AlignmentMismatch (s_name g))"
  by (simp add: section_add_def)

text \<open>
  Claim C4, as amended. Let \<open>g\<close> be a zeroed group and \<open>s1\<close> a record whose \<open>align\<close>
  is between 1 and 31 (the counts for which both shifts of \<^verbatim>\<open>operator +=\<close> are defined).
  If \<open>s2\<close> has the same \<open>align\<close> and a non-zero size, \<^verbatim>\<open>g += s1; g += s2\<close> succeeds with
  \<open>size = s1.size + s2.size\<close> (in 32 bits) and \<open>offset\<close> the sum \<open>s2.offset + s2.size\<close>
  rounded by the documented mask formula. If \<open>s2\<close> has size 0 the second fold changes
  nothing: the size is still the sum, and the offset is the one the first fold left (0
  when \<open>s1\<close> is empty too). If both sizes are non-zero and the aligns differ, the fold
  fails with \<open>AlignmentMismatch\<close>.
\<close>

theorem section_fold_two:
  assumes "s_size g = 0" "s_offset g = 0" "s_align g = 0"
      and "1 \<le> s_align s1" "s_align s1 \<le> 31"
  shows "(s_align s2 = s_align s1 \<and> s_size s2 \<noteq> 0 \<longrightarrow>
            (\<exists>r. section_add2 g s1 s2 = Inr r \<and> s_size r = s_size s1 + s_size s2 \<and>
                 s_align r = s_align s2 \<and>
                 s_offset r = documented_round (s_align s2) (s_offset s2 + s_size s2))) \<and>
         (s_align s2 = s_align s1 \<and> s_size s2 = 0 \<longrightarrow>
            (\<exists>r. section_add2 g s1 s2 = Inr r \<and> s_size r = s_size s1 + s_size s2 \<and>
                 s_offset r = (if s_size s1 = 0 then 0
                               else documented_round (s_align s1) (s_offset s1 + s_size s1)))) \<and>
         (s_size s1 \<noteq> 0 \<and> s_size s2 \<noteq> 0 \<and> s_align s2 \<noteq> s_align s1 \<longrightarrow>
            section_add2 g s1 s2 = Inl (AlignmentMismatch (s_name g)))"
proof (cases "s_size s1 = 0")
  case True
  then have g1: "section_add g s1 = Inr g" by (rule section_add_empty)
  show ?thesis
    using True assms
    by (auto simp: section_add2_def g1 section_add_zero_group section_add_empty)
next
  case False
  have g1: "section_add g s1 =
              Inr (g\<lparr>s_size := s_size s1,
                    s_offset := documented_round (s_align s1) (s_offset s1 + s_size s1),
                    s_align := s_align s1\<rparr>)"
    using assms False by (simp add: section_add_zero_group)
  have nz: "s_align s1 \<noteq> 0" using assms(4) by (auto simp: word_le_nat_alt)
  show ?thesis
    using False assms(4,5) nz
    by (auto simp: section_add2_def g1 section_add_same_align section_add_empty section_add_mismatch)
qed

theorem section_fold_two_witness:
  "section_add2 \<lparr>s_name = ''.ctor'', s_size = 0, s_offset = 0, s_align = 0\<rparr>
       \<lparr>s_name = ''.ctor'', s_size = 8, s_offset = 0, s_align = 2\<rparr>
       \<lparr>s_name = ''.ctor'', s_size = 5, s_offset = 0, s_align = 2\<rparr>
     = Inr \<lparr>s_name = ''.ctor'', s_size = 13, s_offset = 8, s_align = 2\<rparr> \<and>
   section_add2 \<lparr>s_name = ''.ctor'', s_size = 0, s_offset = 0, s_align = 0\<rparr>
       \<lparr>s_name = ''.ctor'', s_size = 8, s_offset = 0, s_align = 2\<rparr>
       \<lparr>s_name = ''.ctor'', s_size = 0, s_offset = 0, s_align = 2\<rparr>
     = Inr \<lparr>s_name = ''.ctor'', s_size = 8, s_offset = 8, s_align = 2\<rparr> \<and>
   section_add2 \<lparr>s_name = ''.ctor'', s_size = 0, s_offset = 0, s_align = 0\<rparr>
       \<lparr>s_name = ''.ctor'', s_size = 8, s_offset = 0, s_align = 2\<rparr>
       \<lparr>s_name = ''.ctor'', s_size = 5, s_offset = 0, s_align = 3\<rparr>
     = Inl (AlignmentMismatch ''.ctor'')"
  using section_fold_two
          [of "\<lparr>s_name = ''.ctor'', s_size = 0, s_offset = 0, s_align = 0\<rparr>"
              "\<lparr>s_name = ''.ctor'', s_size = 8, s_offset = 0, s_align = 2\<rparr>"
              "\<lparr>s_name = ''.ctor'', s_size = 5, s_offset = 0, s_align = 2\<rparr>"]
        section_fold_two
          [of "\<lparr>s_name = ''.ctor'', s_size = 0, s_offset = 0, s_align = 0\<rparr>"
              "\<lparr>s_name = ''.ctor'', s_size = 8, s_offset = 0, s_align = 2\<rparr>"
              "\<lparr>s_name = ''.ctor'', s_size = 0, s_offset = 0, s_align = 2\<rparr>"]
        section_fold_two
          [of "\<lparr>s_name = ''.ctor'', s_size = 0, s_offset = 0, s_align = 0\<rparr>"
              "\<lparr>s_name = ''.ctor'', s_size = 8, s_offset = 0, s_align = 2\<rparr>"
              "\<lparr>s_name = ''.ctor'', s_size = 5, s_offset = 0, s_align = 3\<rparr>"]
  by (simp add: section_add2_def section_add_def documented_round_def)

text \<open>
  Claim C4 as stated fails where the second record is empty: with \<open>s1 = (size 4, offset 0,
  align 2)\<close> and \<open>s2 = (size 0, offset 0, align 2)\<close> the fold ends with offset 4, and the
  documented rounding of \<open>s2.offset + s2.size = 0\<close> is 0.
\<close>

theorem section_fold_two_counterexample:
  "section_add2 \<lparr>s_name = ''.text'', s_size = 0, s_offset = 0, s_align = 0\<rparr>
       \<lparr>s_name = ''.text'', s_size = 4, s_offset = 0, s_align = 2\<rparr>
       \<lparr>s_name = ''.text'', s_size = 0, s_offset = 0, s_align = 2\<rparr>
     = Inr \<lparr>s_name = ''.text'', s_size = 4, s_offset = 4, s_align = 2\<rparr> \<and>
   documented_round 2 (0 + 0) \<noteq> 4"
  by (simp add: section_add2_def section_add_def documented_round_def)

section \<open>Joining paths\<close>

lemma str_at_last: "path \<noteq> [] \<Longrightarrow> str_at path (size_minus_one (length path)) = Inr (last path)"
  by (simp add: str_at_def size_minus_one_def last_conv_nth)

lemma str_at_first: "str_at fname 0 = Inr (if fname = [] then NUL else hd fname)"
  by (cases fname) (simp_all add: str_at_def)

lemma path_join_empty_path: "path_join sep [] fname = Inl Undefined"
  by (simp add: path_join_def str_at_def size_minus_one_def SIZE_MAX_def)

lemma c_str_from_tl: "fname \<noteq> [] \<Longrightarrow> NUL \<notin> set fname \<Longrightarrow> c_str_from fname 1 = Inr (tl fname)"
proof -
  assume a: "fname \<noteq> []" "NUL \<notin> set fname"
  then have "NUL \<notin> set (tl fname)" by (cases fname) auto
  then have "takeWhile (\<lambda>c. c \<noteq> NUL) (tl fname) = tl fname"
    by (auto intro: takeWhile_eq_all_conv [THEN iffD2])
  with a show ?thesis
    by (cases fname) (simp_all add: c_str_from_def drop_Suc)
qed

lemma path_join_strip:
  assumes a: "path \<noteq> [] \<and> fname \<noteq> [] \<and> NUL \<notin> set fname"
  shows "path_join sep path fname =
           Inr ((if last path = sep then butlast path else path) @ [sep] @
                (if hd fname = sep then tl fname else fname))"
proof -
  have c: "c_str_from fname (Suc 0) = Inr (tl fname)"
    using a c_str_from_tl [of fname] by simp
  have p: "last path = sep \<Longrightarrow> butlast path @ [sep] = path"
    using a by (metis append_butlast_last_id)
  have f: "hd fname = sep \<Longrightarrow> sep # tl fname = fname"
    using a by (metis list.collapse)
  have pj: "path_join sep path fname =
              (if last path \<noteq> sep \<and> hd fname \<noteq> sep then Inr (path @ [sep] @ fname)
               else if last path = sep \<and> hd fname = sep then Inr (path @ tl fname)
               else Inr (path @ fname))"
    using a by (simp add: path_join_def str_at_last str_at_first c)
  show ?thesis
  proof (cases "last path = sep")
    case lp: True
    then have "path @ xs = butlast path @ [sep] @ xs" for xs
      using p by (metis append_assoc)
    then show ?thesis using lp pj by simp
  next
    case lp: False
    show ?thesis
    proof (cases "hd fname = sep")
      case True
      then have "path @ fname = path @ [sep] @ tl fname" using f by simp
      then show ?thesis using lp True pj by simp
    next
      case False
      then show ?thesis using lp pj by simp
    qed
  qed
qed

lemma strip_trailing_once:
  assumes "path \<noteq> []" "\<forall>q. path \<noteq> q @ [sep, sep]"
  shows "(if last path = sep then butlast path else path) = [] \<or>
         last (if last path = sep then butlast path else path) \<noteq> sep"
proof (cases "last path = sep")
  case False
  then show ?thesis by simp
next
  case True
  show ?thesis
  proof (rule ccontr)
    assume "\<not> ?thesis"
    then have b: "butlast path \<noteq> []" "last (butlast path) = sep" using True by auto
    have "path = butlast path @ [sep]"
      using assms(1) True by (metis append_butlast_last_id)
    moreover have "butlast path = butlast (butlast path) @ [sep]"
      using b by (metis append_butlast_last_id)
    ultimately have "path = butlast (butlast path) @ [sep, sep]" by (metis append.assoc append_Cons append_Nil)
    then show False using assms(2) by blast
  qed
qed

lemma strip_leading_once:
  assumes "fname \<noteq> []" "\<forall>g. fname \<noteq> sep # sep # g"
  shows "(if hd fname = sep then tl fname else fname) = [] \<or>
         hd (if hd fname = sep then tl fname else fname) \<noteq> sep"
proof (cases fname)
  case Nil
  then show ?thesis using assms(1) by simp
next
  case (Cons c rest)
  then show ?thesis using assms(2) by (cases rest) auto
qed

text \<open>
  Claim C10, as amended. \<^verbatim>\<open>path_join\<close> reads the last character of the directory and
  the first character of the file in every call. With an empty directory the first read
  is at index \<^verbatim>\<open>SIZE_MAX\<close>, outside the string. With a directory that is not empty every
  read is at an index the constant \<^verbatim>\<open>operator[]\<close> allows, also when the file is empty
  (index 0 is then the position \<^verbatim>\<open>size ()\<close>, whose value is NUL): the result is the
  directory, with a separator added if it had none. For a directory and a file that are
  both non-empty, the file holding no NUL, the result is the directory without one
  separator at its end (if it ends with one), a separator, and the file without one
  separator at its start (if it starts with one): one separator is dropped when both
  sides bring one, one is inserted when neither does, and any further separators of the
  arguments stay. So exactly one separator stands at the junction when the directory ends
  with at most one separator and the file starts with at most one.
\<close>

theorem path_join_bounds:
  assumes "sep \<noteq> NUL"
  shows "path_join sep [] fname = Inl Undefined \<and>
         (path \<noteq> [] \<longrightarrow>
            path_join sep path [] = Inr (if last path = sep then path else path @ [sep])) \<and>
         (path \<noteq> [] \<and> fname \<noteq> [] \<longrightarrow> (\<exists>joined. path_join sep path fname = Inr joined)) \<and>
         (path \<noteq> [] \<and> fname \<noteq> [] \<and> NUL \<notin> set fname \<longrightarrow>
            path_join sep path fname =
              Inr ((if last path = sep then butlast path else path) @ [sep] @
                   (if hd fname = sep then tl fname else fname))) \<and>
         (path \<noteq> [] \<and> fname \<noteq> [] \<and> NUL \<notin> set fname \<and>
          (\<forall>q. path \<noteq> q @ [sep, sep]) \<and> (\<forall>g. fname \<noteq> sep # sep # g) \<longrightarrow>
            (\<exists>p f. path_join sep path fname = Inr (p @ [sep] @ f) \<and>
                   (p = [] \<or> last p \<noteq> sep) \<and> (f = [] \<or> hd f \<noteq> sep)))"
proof (intro conjI impI)
  show "path_join sep [] fname = Inl Undefined" by (rule path_join_empty_path)
next
  assume "path \<noteq> []"
  then show "path_join sep path [] = Inr (if last path = sep then path else path @ [sep])"
    using assms by (simp add: path_join_def str_at_last str_at_first)
next
  assume a: "path \<noteq> [] \<and> fname \<noteq> []"
  then have "1 \<le> length fname" by (cases fname) auto
  then show "\<exists>joined. path_join sep path fname = Inr joined"
    using a by (simp add: path_join_def str_at_last str_at_first c_str_from_def)
next
  assume "path \<noteq> [] \<and> fname \<noteq> [] \<and> NUL \<notin> set fname"
  then show "path_join sep path fname =
          Inr ((if last path = sep then butlast path else path) @ [sep] @
               (if hd fname = sep then tl fname else fname))"
    by (rule path_join_strip)
next
  assume a: "path \<noteq> [] \<and> fname \<noteq> [] \<and> NUL \<notin> set fname \<and>
             (\<forall>q. path \<noteq> q @ [sep, sep]) \<and> (\<forall>g. fname \<noteq> sep # sep # g)"
  let ?p = "if last path = sep then butlast path else path"
  let ?f = "if hd fname = sep then tl fname else fname"
  have "path_join sep path fname = Inr (?p @ [sep] @ ?f)"
    using a by (intro path_join_strip) simp
  moreover have "?p = [] \<or> last ?p \<noteq> sep"
    using a by (intro strip_trailing_once) simp_all
  moreover have "?f = [] \<or> hd ?f \<noteq> sep"
    using a by (intro strip_leading_once) simp_all
  ultimately show "\<exists>p f. path_join sep path fname = Inr (p @ [sep] @ f) \<and>
                         (p = [] \<or> last p \<noteq> sep) \<and> (f = [] \<or> hd f \<noteq> sep)"
    by blast
qed

theorem path_join_bounds_witness:
  "path_join (CHR ''/'') [] ''x'' = Inl Undefined \<and>
   path_join (CHR ''/'') ''lib'' [] = Inr ''lib/'' \<and>
   path_join (CHR ''/'') ''lib/'' ''/libc.a'' = Inr ''lib/libc.a'' \<and>
   path_join (CHR ''/'') ''lib'' ''libc.a'' = Inr ''lib/libc.a''"
  using path_join_bounds [where sep = "CHR ''/''" and fname = "''x''" and path = "''lib''"]
        path_join_bounds [where sep = "CHR ''/''" and fname = "''/libc.a''" and path = "''lib/''"]
        path_join_bounds [where sep = "CHR ''/''" and fname = "''libc.a''" and path = "''lib''"]
  by (simp add: NUL_def)

text \<open>
  Claim C10 as stated fails for an empty file argument, where no read is out of bounds
  and the call returns the directory with a separator; the result is not the join of
  the two strings when the file starts with a separator and holds a NUL (the rest of the
  file is appended as a C string); and two separators stand at the junction when the
  directory ends with two.
\<close>

theorem path_join_bounds_counterexample:
  "path_join (CHR ''/'') ''a'' [] = Inr ''a/'' \<and>
   path_join (CHR ''/'') ''a/'' (''/b'' @ [NUL] @ ''c'') = Inr ''a/b'' \<and>
   path_join (CHR ''/'') ''a//'' ''b'' = Inr ''a//b''"
  by (simp add: path_join_def str_at_def size_minus_one_def c_str_from_def NUL_def)

section \<open>Valid file names\<close>

lemma file_is_valid_always: "file_is_valid f"
  by (simp add: file_is_valid_def)

text \<open>
  Claim C7 says that \<^verbatim>\<open>file::is_valid\<close> holds exactly when one of the two names is not
  empty, so that an object made from a file with two empty names is refused. In the code
  \<^verbatim>\<open>is_valid\<close> holds of every file, also of the one with two empty names: both
  constructors of \<^verbatim>\<open>object\<close> accept it, and \<^verbatim>\<open>archive::archive\<close> refuses the empty path
  only by its second check, as a name that is not an archive.
\<close>

theorem file_is_valid_empty_names:
  "file_is_valid \<lparr>aname = [], oname = [], f_offset = 0, f_size = 0\<rparr> \<and>
   object_new_path 0 None True [] =
     Inr \<lparr>o_image = \<lparr>img_name = \<lparr>aname = [], oname = [], f_offset = 0, f_size = 0\<rparr>,
                      img_refs = 0, img_fd = - 1\<rparr>, o_archive = None\<rparr> \<and>
   object_new_member (image_new \<lparr>aname = ''libx.a'', oname = [], f_offset = 0, f_size = 8\<rparr>)
       \<lparr>aname = [], oname = [], f_offset = 0, f_size = 0\<rparr> =
     Inr \<lparr>o_image = \<lparr>img_name = \<lparr>aname = [], oname = [], f_offset = 0, f_size = 0\<rparr>,
                      img_refs = 0, img_fd = - 1\<rparr>, o_archive = Some ''libx.a''\<rparr> \<and>
   archive_new 0 None [] = Inl (NotAnArchive [])"
  by (simp add: file_is_valid_def object_new_path_def object_new_member_def archive_new_def
        file_set_def file_empty_def image_new_def file_is_archive_def file_path_def)

section \<open>Reference counts and descriptors\<close>

lemma image_new_inv: "image_inv (image_new f)"
  by (simp add: image_inv_def image_new_def)

lemma image_open_step:
  assumes "image_inv s" "image_open writable os_fd s = (err, s', calls)" "err \<noteq> Some Undefined"
  shows "image_inv s' \<and> step_ok (s, s', calls) \<and> img_refs s' \<le> img_refs s + 1"
  using assms
  by (auto simp: image_inv_def step_ok_def image_open_def Let_def INT_MAX_def split: if_splits)

lemma image_close_step:
  assumes "image_inv s" "image_close s = (s', calls)"
  shows "image_inv s' \<and> step_ok (s, s', calls) \<and> img_refs s' \<le> img_refs s + 1"
  using assms
  by (auto simp: image_inv_def step_ok_def image_close_def Let_def split: if_splits)

lemma image_step_ok:
  assumes "image_inv s" "image_step s c = (err, s', calls)" "err \<noteq> Some Undefined"
  shows "image_inv s' \<and> step_ok (s, s', calls) \<and> img_refs s' \<le> img_refs s + 1"
proof (cases c)
  case (Open writable os_fd)
  then have "image_open writable os_fd s = (err, s', calls)"
    using assms(2) by (simp add: image_step_def)
  then show ?thesis using assms(1,3) image_open_step by blast
next
  case Close
  then have "image_close s = (s', calls)" using assms(2) by (simp add: image_step_def)
  then show ?thesis using assms(1) image_close_step by blast
qed

lemma image_step_defined:
  assumes "img_refs s < INT_MAX"
  shows "fst (image_step s c) \<noteq> Some Undefined"
  using assms
  by (cases c) (auto simp: image_step_def image_open_def Let_def)

lemma image_run_ok: "image_inv s \<Longrightarrow> \<forall>e \<in> set (image_run s cs). step_ok e"
proof (induction cs arbitrary: s)
  case Nil
  then show ?case by simp
next
  case (Cons c cs)
  obtain err s' calls where st: "image_step s c = (err, s', calls)"
    by (cases "image_step s c")
  show ?case
  proof (cases "err = Some Undefined")
    case True
    then show ?thesis using st by simp
  next
    case False
    from image_step_ok [OF Cons.prems st False]
    have "image_inv s'" "step_ok (s, s', calls)" by simp_all
    then show ?thesis using Cons.IH [of s'] st False by simp
  qed
qed

lemma image_run_length:
  "image_inv s \<Longrightarrow> img_refs s + int (length cs) \<le> INT_MAX \<Longrightarrow>
   length (image_run s cs) = length cs"
proof (induction cs arbitrary: s)
  case Nil
  then show ?case by simp
next
  case (Cons c cs)
  obtain err s' calls where st: "image_step s c = (err, s', calls)"
    by (cases "image_step s c")
  have "img_refs s < INT_MAX" using Cons.prems(2) by simp
  then have def: "err \<noteq> Some Undefined"
    using image_step_defined [of s c] st by simp
  from image_step_ok [OF Cons.prems(1) st def]
  have "image_inv s'" "img_refs s' \<le> img_refs s + 1" by simp_all
  then have "length (image_run s' cs) = length cs"
    using Cons.prems(2) by (intro Cons.IH) auto
  then show ?case using st def by simp
qed

text \<open>
  Claim C5. Take any sequence of \<^verbatim>\<open>open\<close> and \<^verbatim>\<open>close\<close> calls on a new image, as far as
  the behaviour of the calls is defined: the run ends before an \<^verbatim>\<open>open\<close> that would take
  the \<^verbatim>\<open>int\<close> counter past \<^verbatim>\<open>INT_MAX\<close>, which no sequence of at most \<^verbatim>\<open>INT_MAX\<close> calls holds.
  After every call of the run the descriptor is non-negative exactly when the reference
  count is positive. A call takes the count from 0 to 1 exactly when it makes one
  \<^verbatim>\<open>::open\<close> system call that succeeds, and from 1 to 0 exactly when it makes one
  \<^verbatim>\<open>::close\<close> system call (on the descriptor held); no call makes more than one system
  call. \<^verbatim>\<open>close\<close> on an image with no reference changes nothing.
\<close>

theorem image_open_close_refcount:
  "(\<forall>(s, s', calls) \<in> set (image_run (image_new f) cs).
      (0 \<le> img_fd s') = (0 < img_refs s') \<and>
      (img_refs s = 0 \<and> img_refs s' = 1) =
        (\<exists>p w d. calls = [OsOpen p w d] \<and> 0 \<le> d \<and> d = img_fd s') \<and>
      (img_refs s = 1 \<and> img_refs s' = 0) = (calls = [OsClose (img_fd s)]) \<and>
      length calls \<le> 1) \<and>
   (int (length cs) \<le> INT_MAX \<longrightarrow> length (image_run (image_new f) cs) = length cs) \<and>
   (img_refs img = 0 \<longrightarrow> image_close img = (img, []))"
proof (intro conjI)
  show "\<forall>(s, s', calls) \<in> set (image_run (image_new f) cs).
      (0 \<le> img_fd s') = (0 < img_refs s') \<and>
      (img_refs s = 0 \<and> img_refs s' = 1) =
        (\<exists>p w d. calls = [OsOpen p w d] \<and> 0 \<le> d \<and> d = img_fd s') \<and>
      (img_refs s = 1 \<and> img_refs s' = 0) = (calls = [OsClose (img_fd s)]) \<and>
      length calls \<le> 1"
    using image_run_ok [OF image_new_inv, of f cs]
    by (auto simp: step_ok_def)
  show "int (length cs) \<le> INT_MAX \<longrightarrow> length (image_run (image_new f) cs) = length cs"
    using image_run_length [OF image_new_inv, of f cs] by (simp add: image_new_def)
  show "img_refs img = 0 \<longrightarrow> image_close img = (img, [])"
    by (simp add: image_close_def)
qed

theorem image_open_close_refcount_witness:
  "map (\<lambda>(s, s', calls). (img_refs s', img_fd s', calls))
     (image_run (image_new \<lparr>aname = ''libx.a'', oname = [], f_offset = 0, f_size = 8\<rparr>)
        [Open False 3, Open False 4, Close, Close, Close, Open True (- 1)]) =
     [(1, 3, [OsOpen ''libx.a'' False 3]), (2, 3, []), (1, 3, []), (0, - 1, [OsClose 3]),
      (0, - 1, []), (0, - 1, [OsOpen ''libx.a'' True (- 1)])] \<and>
   int (length [Open False 3, Open False 4, Close, Close, Close, Open True (- 1)]) \<le> INT_MAX"
  using image_open_close_refcount
          [of "\<lparr>aname = ''libx.a'', oname = [], f_offset = 0, f_size = 8\<rparr>"
              "[Open False 3, Open False 4, Close, Close, Close, Open True (- 1)]"]
  by (simp add: image_new_def image_step_def image_open_def image_close_def file_path_def Let_def
        INT_MAX_def)

section \<open>Copying through the buffer\<close>

lemma copy_loop_done: "copy_loop env 0 = (Some (Inr ()), [])"
  by (subst copy_loop.simps) simp

lemma copy_loop_good_step:
  assumes "0 < r" "r < int sz \<or> r = int sz" "sz \<le> SIZE_MAX"
  shows "fst (copy_loop ((r, r) # env) sz) = fst (copy_loop env (sz - nat r))"
proof -
  have nz: "sz \<noteq> 0" using assms by auto
  have "0 \<le> int sz - r" "int sz - r < int SIZE_MAX + 1" using assms by auto
  then have "(int sz - r) mod (int SIZE_MAX + 1) = int sz - r" by simp
  then have m: "nat ((int sz - r) mod (int SIZE_MAX + 1)) = sz - nat r" using assms by auto
  show ?thesis
    using assms(1) nz
    by (subst copy_loop.simps) (simp add: m split: prod.split)
qed

lemma copy_loop_good_prefix:
  assumes "\<forall>(r, w) \<in> set pre. 0 < r \<and> w = r" "sum_list (map fst pre) \<le> int sz" "sz \<le> SIZE_MAX"
  shows "fst (copy_loop (pre @ tail) sz) = fst (copy_loop tail (sz - nat (sum_list (map fst pre))))"
  using assms
proof (induction pre arbitrary: sz)
  case Nil
  then show ?case by simp
next
  case (Cons p pre)
  obtain r w where p: "p = (r, w)" by (cases p)
  have r: "0 < r" "w = r" using Cons.prems(1) p by auto
  have nn: "0 \<le> sum_list (map fst pre)"
    using Cons.prems(1) by (intro sum_list_nonneg) auto
  have le: "r \<le> int sz" using Cons.prems(2) p nn by simp
  have step: "fst (copy_loop ((r, r) # pre @ tail) sz) = fst (copy_loop (pre @ tail) (sz - nat r))"
    using r(1) le Cons.prems(3) by (intro copy_loop_good_step) auto
  have "fst (copy_loop (pre @ tail) (sz - nat r)) =
          fst (copy_loop tail (sz - nat r - nat (sum_list (map fst pre))))"
    using Cons.prems p r le by (intro Cons.IH) auto
  moreover have "sz - nat r - nat (sum_list (map fst pre)) = sz - nat (sum_list (map fst (p # pre)))"
    using p r nn by (simp add: nat_add_distrib)
  ultimately show ?case using step p r by simp
qed

lemma copy_loop_eof: "sz \<noteq> 0 \<Longrightarrow> fst (copy_loop ((0, w) # rest) sz) = Some (Inl InputTooShort)"
  by (subst copy_loop.simps) simp

lemma copy_loop_short_write:
  "sz \<noteq> 0 \<Longrightarrow> 0 < r \<Longrightarrow> 0 \<le> w \<Longrightarrow> w < r \<Longrightarrow>
   fst (copy_loop ((r, w) # rest) sz) = Some (Inl OutputTruncated)"
  by (subst copy_loop.simps) simp

lemma copy_loop_reads:
  "\<forall>c \<in> set (snd (copy_loop env sz)). \<forall>l r. c = OsRead l r \<longrightarrow> 0 < l \<and> l \<le> COPY_FILE_BUFFER_SIZE"
proof (induction env sz rule: copy_loop.induct)
  case (1 env sz)
  show ?case
  proof (cases "sz = 0")
    case True
    then show ?thesis by (simp add: copy_loop_done)
  next
    case nz: False
    show ?thesis
    proof (cases env)
      case Nil
      then show ?thesis using nz by (subst copy_loop.simps) simp
    next
      case (Cons p env')
      obtain r w where p: "p = (r, w)" by (cases p)
      have buf: "0 < COPY_FILE_BUFFER_SIZE" by (simp add: COPY_FILE_BUFFER_SIZE_def)
      show ?thesis
      proof (cases "r < 0 \<or> r = 0 \<or> w < 0 \<or> w \<noteq> r")
        case True
        then show ?thesis using nz Cons p buf
          by (subst copy_loop.simps) (auto simp: Let_def)
      next
        case False
        then have ih: "\<forall>c \<in> set (snd (copy_loop env' (nat ((int sz - r) mod (int SIZE_MAX + 1))))).
                         \<forall>l r. c = OsRead l r \<longrightarrow> 0 < l \<and> l \<le> COPY_FILE_BUFFER_SIZE"
          using "1.IH" [OF nz Cons p [symmetric] refl] by auto
        show ?thesis using nz Cons p buf False ih
          by (subst copy_loop.simps) (auto simp: Let_def split: prod.split)
      qed
    qed
  qed
qed

lemma copy_file_io: "fst (snd (copy_file ok env sz heap)) = (if ok then snd (copy_loop env sz) else [])"
  by (auto simp: copy_file_def Let_def split: prod.split option.split sum.split)

lemma copy_file_result: "fst (copy_file True env sz heap) = fst (copy_loop env sz)"
  by (auto simp: copy_file_def Let_def split: prod.split option.split sum.split)

lemma copy_file_heap:
  "snd (snd (copy_file ok env sz heap)) =
     (if fst (copy_file ok env sz heap) = None then COPY_FILE_BUFFER_SIZE # heap else heap)"
  by (auto simp: copy_file_def Let_def split: prod.split option.split sum.split)

text \<open>
  Claim C8. Let the first reads of \<^verbatim>\<open>copy_file (in, out, size)\<close> each return a positive
  count that the following write transfers in full, fewer than \<open>size\<close> bytes in all. If
  the next read returns 0, \<^verbatim>\<open>copy_file\<close> fails with \<open>InputTooShort\<close>; if the next write
  transfers fewer bytes than were read, it fails with \<open>OutputTruncated\<close>; if the counts add
  up to \<open>size\<close>, it succeeds. The buffer has \<^verbatim>\<open>COPY_FILE_BUFFER_SIZE\<close> = 8192 bytes and no
  read asks for more; it is live while the loop runs and released whenever \<^verbatim>\<open>copy_file\<close>
  is over, by return or by exception.
\<close>

theorem copy_file_outcomes:
  assumes "\<forall>(r, w) \<in> set pre. 0 < r \<and> w = r" "sz \<le> SIZE_MAX"
  shows "(sum_list (map fst pre) < int sz \<longrightarrow>
            fst (copy_file True (pre @ (0, w) # rest) sz heap) = Some (Inl InputTooShort)) \<and>
         (sum_list (map fst pre) < int sz \<and> 0 < r \<and> 0 \<le> w \<and> w < r \<longrightarrow>
            fst (copy_file True (pre @ (r, w) # rest) sz heap) = Some (Inl OutputTruncated)) \<and>
         (sum_list (map fst pre) = int sz \<longrightarrow>
            fst (copy_file True (pre @ rest) sz heap) = Some (Inr ())) \<and>
         COPY_FILE_BUFFER_SIZE = 8192 \<and>
         (\<forall>c \<in> set (fst (snd (copy_file ok env n heap))).
            \<forall>l k. c = OsRead l k \<longrightarrow> 0 < l \<and> l \<le> COPY_FILE_BUFFER_SIZE) \<and>
         (fst (copy_file ok env n heap) = None \<longrightarrow>
            snd (snd (copy_file ok env n heap)) = COPY_FILE_BUFFER_SIZE # heap) \<and>
         (fst (copy_file ok env n heap) \<noteq> None \<longrightarrow> snd (snd (copy_file ok env n heap)) = heap)"
proof (intro conjI impI)
  assume lt: "sum_list (map fst pre) < int sz"
  have "0 \<le> sum_list (map fst pre)"
    using assms(1) by (intro sum_list_nonneg) auto
  with lt have rem: "sz - nat (sum_list (map fst pre)) \<noteq> 0" by auto
  show "fst (copy_file True (pre @ (0, w) # rest) sz heap) = Some (Inl InputTooShort)"
    using copy_loop_good_prefix [OF assms(1) _ assms(2), of "(0, w) # rest"] lt rem
    by (simp add: copy_file_result copy_loop_eof)
next
  assume a: "sum_list (map fst pre) < int sz \<and> 0 < r \<and> 0 \<le> w \<and> w < r"
  have "0 \<le> sum_list (map fst pre)"
    using assms(1) by (intro sum_list_nonneg) auto
  with a have rem: "sz - nat (sum_list (map fst pre)) \<noteq> 0" by auto
  show "fst (copy_file True (pre @ (r, w) # rest) sz heap) = Some (Inl OutputTruncated)"
    using copy_loop_good_prefix [OF assms(1) _ assms(2), of "(r, w) # rest"] a rem
    by (simp add: copy_file_result copy_loop_short_write)
next
  assume eq: "sum_list (map fst pre) = int sz"
  show "fst (copy_file True (pre @ rest) sz heap) = Some (Inr ())"
    using copy_loop_good_prefix [OF assms(1) _ assms(2), of rest] eq
    by (simp add: copy_file_result copy_loop_done)
next
  show "COPY_FILE_BUFFER_SIZE = 8192" by (simp add: COPY_FILE_BUFFER_SIZE_def)
next
  show "\<forall>c \<in> set (fst (snd (copy_file ok env n heap))).
          \<forall>l k. c = OsRead l k \<longrightarrow> 0 < l \<and> l \<le> COPY_FILE_BUFFER_SIZE"
    using copy_loop_reads [of env n] by (auto simp: copy_file_io)
next
  assume "fst (copy_file ok env n heap) = None"
  then show "snd (snd (copy_file ok env n heap)) = COPY_FILE_BUFFER_SIZE # heap"
    by (simp add: copy_file_heap)
next
  assume "fst (copy_file ok env n heap) \<noteq> None"
  then show "snd (snd (copy_file ok env n heap)) = heap"
    by (simp add: copy_file_heap)
qed

theorem copy_file_outcomes_witness:
  "copy_file True [(8192, 8192), (0, 0)] 10000 [] =
     (Some (Inl InputTooShort), [OsRead 8192 8192, OsWrite 8192 8192, OsRead 1808 0], []) \<and>
   copy_file True [(8192, 8192), (1808, 1000)] 10000 [] =
     (Some (Inl OutputTruncated),
      [OsRead 8192 8192, OsWrite 8192 8192, OsRead 1808 1808, OsWrite 1808 1000], []) \<and>
   copy_file True [(8192, 8192), (1808, 1808)] 10000 [] =
     (Some (Inr ()), [OsRead 8192 8192, OsWrite 8192 8192, OsRead 1808 1808, OsWrite 1808 1808], []) \<and>
   copy_file True [(8192, 8192)] 10000 [] =
     (None, [OsRead 8192 8192, OsWrite 8192 8192], [8192])"
  using copy_file_outcomes [of "[(8192, 8192)]" 10000 0 "[]" "[]" 1808 True "[(8192, 8192), (0, 0)]" 10000]
  by (simp add: copy_file_def copy_loop.simps COPY_FILE_BUFFER_SIZE_def SIZE_MAX_def)

section \<open>The header of the RAP stream\<close>

lemma pull_sections_extends: "\<exists>x. fst (pull_sections cmpr obj secs out) = out @ x"
proof (induction secs arbitrary: out)
  case Nil
  then show ?case by simp
next
  case (Cons sec secs)
  show ?case
  proof (cases "c_pull cmpr obj (fs_offset sec) (fs_size sec)")
    case (Inl e)
    then show ?thesis by simp
  next
    case (Inr bytes)
    obtain x where "fst (pull_sections cmpr obj secs (out @ bytes)) = (out @ bytes) @ x"
      using Cons.IH by blast
    then show ?thesis using Inr by simp
  qed
qed

lemma write_object_extends: "\<exists>x. fst (write_object cmpr obj secs out) = out @ x"
proof -
  obtain x where "fst (pull_sections cmpr obj secs out) = out @ x"
    using pull_sections_extends by blast
  then show ?thesis
    by (cases "pull_sections cmpr obj secs out")
       (auto simp: write_object_def split: option.splits)
qed

lemma section_writer_extends: "\<exists>x. fst (section_writer cmpr sec ro out) = out @ x"
  by (cases sec) (simp_all add: section_writer_def write_object_extends)

lemma for_each_object_extends: "\<exists>x. fst (for_each_object cmpr sec objs out) = out @ x"
proof (induction objs arbitrary: out)
  case Nil
  then show ?case by simp
next
  case (Cons ro objs)
  obtain x where x: "fst (section_writer cmpr sec ro out) = out @ x"
    using section_writer_extends by blast
  obtain y where "fst (for_each_object cmpr sec objs (out @ x)) = (out @ x) @ y"
    using Cons.IH by blast
  then show ?case using x
    by (cases "section_writer cmpr sec ro out") (auto split: option.splits)
qed

lemma for_each_group_extends: "\<exists>x. fst (for_each_group cmpr secs objs out) = out @ x"
proof (induction secs arbitrary: out)
  case Nil
  then show ?case by simp
next
  case (Cons sec secs)
  obtain x where x: "fst (for_each_object cmpr sec objs out) = out @ x"
    using for_each_object_extends by blast
  obtain y where "fst (for_each_group cmpr secs objs (out @ x)) = (out @ x) @ y"
    using Cons.IH by blast
  then show ?case using x
    by (cases "for_each_object cmpr sec objs out") (auto split: option.splits)
qed

lemma image_write_extends:
  "\<exists>x. fst (image_write cmpr machine data_type elf_class img init fini) =
          fst (write_head cmpr machine data_type elf_class img init fini) @ x"
proof -
  obtain out5 strtab2 where h: "write_head cmpr machine data_type elf_class img init fini = (out5, strtab2)"
    by (cases "write_head cmpr machine data_type elf_class img init fini")
  obtain x where x: "fst (for_each_group cmpr [rap_text, rap_const, rap_ctor, rap_dtor, rap_data]
                             (ri_objs img) out5) = out5 @ x"
    using for_each_group_extends by blast
  obtain out6 e where g: "for_each_group cmpr [rap_text, rap_const, rap_ctor, rap_dtor, rap_data]
                             (ri_objs img) out5 = (out6, e)"
    by (cases "for_each_group cmpr [rap_text, rap_const, rap_ctor, rap_dtor, rap_data] (ri_objs img) out5")
  have "out6 = out5 @ x" using x g by simp
  then show ?thesis
    using h g
    by (cases e) (simp_all add: image_write_def Let_def del: for_each_group.simps)
qed

lemma image_write_strtab:
  "ri_strtab (snd (snd (image_write cmpr machine data_type elf_class img init fini))) =
     ri_strtab img @ init @ [NUL] @ fini @ [NUL]"
  by (auto simp: image_write_def write_head_def Let_def split: prod.splits option.splits)

text \<open>
  Claim C3. If the compressor lays every \<^verbatim>\<open>uint32_t\<close> into the stream as four bytes, the
  first 32 bytes of the stream of \<^verbatim>\<open>image::write\<close> are eight words: machine type, data
  encoding, class, the offset of the init name in the string table (its size before the
  name is appended), the offset of the fini name (the size after init and its NUL), the
  symbol table size, the final size of the string table, and zero. The final string
  table is the one of the layout followed by init, NUL, fini, NUL.
\<close>

theorem rap_header_layout:
  assumes "\<forall>v. length (c_u32 cmpr v) = 4"
  shows "take 32 (fst (image_write cmpr machine data_type elf_class img init fini)) =
           c_u32 cmpr machine @ c_u32 cmpr data_type @ c_u32 cmpr elf_class @
           c_u32 cmpr (of_nat (length (ri_strtab img))) @
           c_u32 cmpr (of_nat (length (ri_strtab img @ init @ [NUL]))) @
           c_u32 cmpr (ri_symtab_size img) @
           c_u32 cmpr (of_nat (length (ri_strtab (snd (snd
              (image_write cmpr machine data_type elf_class img init fini)))))) @
           c_u32 cmpr 0 \<and>
         ri_strtab (snd (snd (image_write cmpr machine data_type elf_class img init fini))) =
           ri_strtab img @ init @ [NUL] @ fini @ [NUL]"
proof -
  let ?w = "c_u32 cmpr"
  let ?h = "?w machine @ ?w data_type @ ?w elf_class @ ?w (of_nat (length (ri_strtab img))) @
            ?w (of_nat (length (ri_strtab img @ init @ [NUL]))) @ ?w (ri_symtab_size img) @
            ?w (of_nat (length (ri_strtab img @ init @ [NUL] @ fini @ [NUL]))) @ ?w 0"
  have len: "length ?h = 32" using assms by simp
  obtain y where y: "fst (write_head cmpr machine data_type elf_class img init fini) = ?h @ y"
    by (simp add: write_head_def Let_def)
  obtain x where "fst (image_write cmpr machine data_type elf_class img init fini) =
                    fst (write_head cmpr machine data_type elf_class img init fini) @ x"
    using image_write_extends by blast
  then have "fst (image_write cmpr machine data_type elf_class img init fini) = ?h @ (y @ x)"
    using y by simp
  then have "take 32 (fst (image_write cmpr machine data_type elf_class img init fini)) = ?h"
    using len by (simp del: append_assoc)
  then show ?thesis by (simp add: image_write_strtab)
qed

theorem rap_header_layout_witness:
  "take 32 (fst (image_write plain_compressor 40 1 1
       (rap_image_new\<lparr>ri_strtab := ''foo'' @ [NUL], ri_symtab_size := 12\<rparr>) ''init'' ''fini'')) =
     u32_bytes 40 @ u32_bytes 1 @ u32_bytes 1 @ u32_bytes 4 @ u32_bytes 9 @ u32_bytes 12 @
     u32_bytes 14 @ u32_bytes 0"
  using rap_header_layout [of plain_compressor 40 1 1
          "rap_image_new\<lparr>ri_strtab := ''foo'' @ [NUL], ri_symtab_size := 12\<rparr>" "''init''" "''fini''"]
  by (simp add: plain_compressor_def u32_bytes_def rap_image_new_def)

section \<open>External symbols and the string table\<close>

text \<open>
  What \<^verbatim>\<open>layout\<close> records, for every list of objects it accepts: the externals are the
  accepted symbols of all objects, in order; the symbol table size and the string table
  are those of the last object alone.
\<close>

lemma collect_symbols_result:
  assumes "collect_symbols ro esyms (externs, n, strtab) = Inr (externs', n', strtab')"
  shows "map (\<lambda>e. (e_value e, e_data e)) externs' =
           map (\<lambda>e. (e_value e, e_data e)) externs @
           map (\<lambda>smb. (sym_value smb, sym_info smb)) (filter accepted esyms) \<and>
         n' = n + external_rap_size * of_nat (length (filter accepted esyms)) \<and>
         strtab' = strtab @ names_of esyms"
  using assms
proof (induction esyms arbitrary: externs n strtab)
  case Nil
  then show ?case by (simp add: names_of_def)
next
  case (Cons smb esyms)
  show ?case
  proof (cases "accepted smb")
    case False
    then show ?thesis using Cons.prems Cons.IH [of externs n strtab] by (simp add: names_of_def)
  next
    case True
    then obtain sec where sec: "rap_find ro (sym_index smb) = Inr sec"
      using Cons.prems by (cases "rap_find ro (sym_index smb)") simp_all
    let ?ex = "externs @ [\<lparr>e_name = of_nat (length strtab + 2), e_sec = sec,
                             e_value = sym_value smb, e_data = sym_info smb\<rparr>]"
    have "collect_symbols ro esyms (?ex, n + external_rap_size, strtab @ sym_name smb @ [NUL]) =
            Inr (externs', n', strtab')"
      using Cons.prems True sec by simp
    from Cons.IH [OF this] show ?thesis
      using True by (simp add: names_of_def algebra_simps)
  qed
qed

lemma layout_loop_result:
  assumes "layout_loop ros img = Inr img'"
  shows "map (\<lambda>e. (e_value e, e_data e)) (ri_externs img') =
           map (\<lambda>e. (e_value e, e_data e)) (ri_externs img) @
           map (\<lambda>smb. (sym_value smb, sym_info smb))
             (filter accepted (concat (map (\<lambda>ro. fo_external_symbols (ro_obj ro)) ros))) \<and>
         (ros \<noteq> [] \<longrightarrow>
            ri_symtab_size img' =
              external_rap_size *
                of_nat (length (filter accepted (fo_external_symbols (ro_obj (last ros))))) \<and>
            ri_strtab img' = names_of (fo_external_symbols (ro_obj (last ros))))"
  using assms
proof (induction ros arbitrary: img)
  case Nil
  then show ?case by simp
next
  case (Cons ro ros)
  obtain secs1 where secs1: "add_sections (ri_secs img) (ro_secs ro) = Inr secs1"
    using Cons.prems by (cases "add_sections (ri_secs img) (ro_secs ro)") simp_all
  obtain externs n strtab where
    col: "collect_symbols ro (fo_external_symbols (ro_obj ro)) (ri_externs img, 0, []) =
            Inr (externs, n, strtab)"
    using Cons.prems secs1
    by (cases "collect_symbols ro (fo_external_symbols (ro_obj ro)) (ri_externs img, 0, [])") auto
  let ?img1 = "img\<lparr>ri_secs := secs1, ri_externs := externs, ri_symtab_size := n,
                    ri_strtab := strtab,
                    ri_relocs_size := ri_relocs_size img + ro_relocs_size ro\<rparr>"
  have rest: "layout_loop ros ?img1 = Inr img'"
    using Cons.prems secs1 col by simp
  note c = collect_symbols_result [OF col]
  note ih = Cons.IH [OF rest]
  show ?case
  proof (cases "ros = []")
    case True
    then have "img' = ?img1" using rest by simp
    then show ?thesis using True c by simp
  next
    case False
    then show ?thesis using ih c by simp
  qed
qed

lemma layout_objects_result:
  "layout_objects app_objects objs = Inr objs' \<Longrightarrow> objs' = objs @ map rap_object_new app_objects"
proof (induction app_objects arbitrary: objs)
  case Nil
  then show ?case by simp
next
  case (Cons a app_objects)
  then have "layout_objects app_objects (objs @ [rap_object_new a]) = Inr objs'"
    by (simp split: if_splits)
  from Cons.IH [OF this] show ?case by simp
qed

lemma rap_object_new_obj: "ro_obj (rap_object_new obj) = obj"
  by (simp add: rap_object_new_def Let_def)

theorem layout_externals:
  assumes "layout rap_image_new app_objects = Inr img"
  shows "map (\<lambda>e. (e_value e, e_data e)) (ri_externs img) =
           map (\<lambda>smb. (sym_value smb, sym_info smb))
             (filter accepted (concat (map fo_external_symbols app_objects))) \<and>
         (app_objects \<noteq> [] \<longrightarrow>
            ri_symtab_size img =
              12 * of_nat (length (filter accepted (fo_external_symbols (last app_objects)))) \<and>
            ri_strtab img = names_of (fo_external_symbols (last app_objects)))"
proof -
  obtain objs where objs: "layout_objects app_objects [] = Inr objs"
    using assms by (cases "layout_objects app_objects []") (simp_all add: layout_def rap_image_new_def)
  then have o: "objs = map rap_object_new app_objects"
    using layout_objects_result by fastforce
  have "layout_loop objs
          (rap_image_new\<lparr>ri_objs := objs,
             ri_secs := map (\<lambda>sec. sec\<lparr>s_size := 0, s_offset := 0, s_align := 0\<rparr>)
                          (ri_secs rap_image_new)\<rparr>) = Inr img"
    using assms objs by (simp add: layout_def rap_image_new_def)
  from layout_loop_result [OF this] show ?thesis
    by (simp add: o rap_image_new_def comp_def rap_object_new_obj last_map external_rap_size_def)
qed

text \<open>
  Claim C1 says that only accepted symbols become externals (which holds, by
  \<open>layout_externals\<close>) and that the \<open>name_off\<close> of every emitted external is the position,
  in the emitted string table, of the NUL-terminated name of its symbol. For one object
  with the single global function \<open>foo\<close>, \<^verbatim>\<open>layout\<close> records the position 2 (the size of
  the string table plus 2), the emitted table is \<open>foo\<close>, \<open>init\<close>, \<open>fini\<close>, each followed by
  NUL, and the string at position 2 is \<open>o\<close>; \<open>foo\<close> stands at position 0.
\<close>

theorem layout_name_offset:
  "map_sum id (\<lambda>img. (ri_externs img, ri_strtab img))
     (layout rap_image_new
        [\<lparr>fo_valid = True, fo_full = ''a.o'',
          fo_text = [\<lparr>fs_name = ''.text'', fs_index = 1, fs_size = 4, fs_alignment = 2, fs_offset = 52\<rparr>],
          fo_const = [], fo_data = [], fo_bss = [], fo_symtab = [], fo_named = (\<lambda>n. []),
          fo_external_symbols =
            [\<lparr>sym_name = ''foo'', sym_type = STT_FUNC, sym_binding = STB_GLOBAL,
              sym_index = 1, sym_value = 0, sym_info = 18\<rparr>]\<rparr>])
     = Inr ([\<lparr>e_name = 2, e_sec = rap_text, e_value = 0, e_data = 18\<rparr>], ''foo'' @ [NUL]) \<and>
   (let (out, err, img) =
          rap_write plain_compressor 40 1 1 ''init'' ''fini''
            [\<lparr>fo_valid = True, fo_full = ''a.o'',
              fo_text = [\<lparr>fs_name = ''.text'', fs_index = 1, fs_size = 4, fs_alignment = 2, fs_offset = 52\<rparr>],
              fo_const = [], fo_data = [], fo_bss = [], fo_symtab = [], fo_named = (\<lambda>n. []),
              fo_external_symbols =
                [\<lparr>sym_name = ''foo'', sym_type = STT_FUNC, sym_binding = STB_GLOBAL,
                  sym_index = 1, sym_value = 0, sym_info = 18\<rparr>]\<rparr>]
    in err = None \<and>
       ri_strtab img = ''foo'' @ [NUL] @ ''init'' @ [NUL] @ ''fini'' @ [NUL] \<and>
       ri_externs img = [\<lparr>e_name = 2, e_sec = rap_text, e_value = 0, e_data = 18\<rparr>] \<and>
       string_at (ri_strtab img) 2 = Some ''o'' \<and>
       string_at (ri_strtab img) 0 = Some ''foo'')"
  by code_simp

text \<open>
  Claim C2 says that after \<^verbatim>\<open>layout\<close> the symbol table size is 12 times the number of
  accepted symbols of all objects, and the string table holds all their names. For two
  objects with one accepted symbol each (\<open>a\<close> and \<open>b\<close>), \<^verbatim>\<open>layout\<close> ends with the size 12
  and the string table \<open>b\<close>, NUL, while two externals are recorded, both at position 2.
\<close>

theorem layout_symtab_size:
  "map_sum id (\<lambda>img. (ri_symtab_size img, ri_strtab img, map e_name (ri_externs img)))
     (layout rap_image_new
        [\<lparr>fo_valid = True, fo_full = ''a.o'',
          fo_text = [\<lparr>fs_name = ''.text'', fs_index = 1, fs_size = 4, fs_alignment = 2, fs_offset = 52\<rparr>],
          fo_const = [], fo_data = [], fo_bss = [], fo_symtab = [], fo_named = (\<lambda>n. []),
          fo_external_symbols =
            [\<lparr>sym_name = ''a'', sym_type = STT_FUNC, sym_binding = STB_GLOBAL,
              sym_index = 1, sym_value = 0, sym_info = 18\<rparr>]\<rparr>,
         \<lparr>fo_valid = True, fo_full = ''b.o'',
          fo_text = [\<lparr>fs_name = ''.text'', fs_index = 1, fs_size = 4, fs_alignment = 2, fs_offset = 52\<rparr>],
          fo_const = [], fo_data = [], fo_bss = [], fo_symtab = [], fo_named = (\<lambda>n. []),
          fo_external_symbols =
            [\<lparr>sym_name = ''b'', sym_type = STT_FUNC, sym_binding = STB_GLOBAL,
              sym_index = 1, sym_value = 0, sym_info = 18\<rparr>]\<rparr>])
     = Inr (12, ''b'' @ [NUL], [2, 2])"
  by code_simp

section \<open>Archives: long member names\<close>

text \<open>
  Claim C6 says that a member with a base name of more than 16 characters gets the header
  name \<open>/N\<close>, \<open>N\<close> the offset of its name in the extended name table. For two such
  members, \<^verbatim>\<open>archive::create\<close> writes a table with the first name at offset 0 and the
  second at offset 25, and the header names \<open>/0\<close> and \<open>/2\<close>: offset 2 is the first
  position in the table of a character that occurs in the second name, and the table
  reads \<open>rst_long_member_name.o\<close> there.
\<close>

theorem create_extended_names:
  "extended_file_names (CHR ''/'')
     [\<lparr>m_oname = ''obj/first_long_member_name.o'', m_size = 4, m_opens = True,
          m_header_write = 60, m_seeks = True, m_copy = None\<rparr>,
      \<lparr>m_oname = ''obj/second_long_member_name.o'', m_size = 6, m_opens = True,
          m_header_write = 60, m_seeks = True, m_copy = None\<rparr>]
     = ''first_long_member_name.o'' @ [NL] @ ''second_long_member_name.o'' @ [NL] \<and>
   map (\<lambda>w. case w of Bytes b \<Rightarrow> take 16 b | CopyOf n k \<Rightarrow> n)
     (snd (create (CHR ''/'')
        \<lparr>a_opens = True, a_seeks = True, a_ident_write = 8, a_table_header_write = 60,
          a_table_write = 51\<rparr>
        [\<lparr>m_oname = ''obj/first_long_member_name.o'', m_size = 4, m_opens = True,
          m_header_write = 60, m_seeks = True, m_copy = None\<rparr>,
         \<lparr>m_oname = ''obj/second_long_member_name.o'', m_size = 6, m_opens = True,
          m_header_write = 60, m_seeks = True, m_copy = None\<rparr>]))
     = [''!<arch>'' @ [NL], ''//              '', ''first_long_membe'',
        ''/0              '', ''obj/first_long_member_name.o'',
        ''/2              '', ''obj/second_long_member_name.o''] \<and>
   drop 2 (''first_long_member_name.o'' @ [NL] @ ''second_long_member_name.o'' @ [NL])
     = ''rst_long_member_name.o'' @ [NL] @ ''second_long_member_name.o'' @ [NL]"
  by code_simp

section \<open>Archives: short member names\<close>

text \<open>
  The scan takes the bytes before the first terminator. With a terminator in the name
  field the name lies in the field; without one, a name that is registered has left it.
\<close>

lemma scan_name_takeWhile:
  "scan_name mem = (if \<exists>c \<in> set mem. name_end c
                    then Inr (takeWhile (\<lambda>c. \<not> name_end c) mem) else Inl Undefined)"
  by (induction mem) (auto simp: name_end_def)

lemma length_takeWhile_lt: "\<exists>x \<in> set xs. \<not> P x \<Longrightarrow> length (takeWhile P xs) < length xs"
  by (induction xs) auto

lemma scan_name_in_field:
  assumes "\<exists>c \<in> set (take rld_archive_fname_size header). name_end c"
  shows "\<exists>str. scan_name header = Inr str \<and> length str < rld_archive_fname_size \<and>
               str = takeWhile (\<lambda>c. \<not> name_end c) (take rld_archive_fname_size header)"
proof -
  let ?P = "\<lambda>c. \<not> name_end c"
  let ?f = "take rld_archive_fname_size header"
  have ex: "\<exists>c \<in> set header. name_end c"
    using assms by (meson in_set_takeD)
  have split: "header = ?f @ drop rld_archive_fname_size header" by simp
  have "takeWhile ?P (?f @ drop rld_archive_fname_size header) = takeWhile ?P ?f"
    using assms by (intro takeWhile_append1 [where x = "SOME c. c \<in> set ?f \<and> name_end c"])
                   (auto intro: someI2_ex)
  then have tw: "takeWhile ?P header = takeWhile ?P ?f" by simp
  have "length (takeWhile ?P ?f) < length ?f"
    using assms by (intro length_takeWhile_lt) simp
  then have "length (takeWhile ?P ?f) < rld_archive_fname_size" by simp
  then show ?thesis using ex tw by (simp add: scan_name_takeWhile)
qed

lemma scan_name_leaves_field:
  assumes "\<forall>c \<in> set (take rld_archive_fname_size header). \<not> name_end c"
      and "rld_archive_fname_size \<le> length header"
      and "scan_name header = Inr str"
  shows "rld_archive_fname_size \<le> length str"
proof -
  let ?P = "\<lambda>c. \<not> name_end c"
  have str: "str = takeWhile ?P header"
    using assms(3) by (simp add: scan_name_takeWhile split: if_splits)
  have "takeWhile ?P (take rld_archive_fname_size header @ drop rld_archive_fname_size header) =
          take rld_archive_fname_size header @ takeWhile ?P (drop rld_archive_fname_size header)"
    using assms(1) by (intro takeWhile_append2) auto
  then have "length (takeWhile ?P header) \<ge> length (take rld_archive_fname_size header)"
    by simp
  then show ?thesis using str assms(2) by simp
qed

text \<open>
  Claim C9 says that the name of a member whose header does not begin with \<^verbatim>\<open>'/'\<close> is
  taken from the 16 bytes of the name field. The scan of \<^verbatim>\<open>archive::add_object\<close> has no
  bound. On a header as \<^verbatim>\<open>archive::write_header\<close> writes it for the name \<open>a.o\<close> (padded
  with spaces, no \<^verbatim>\<open>'/'\<close>) the scan finds no terminator in the 60 bytes of the header and
  leaves the array, so does \<^verbatim>\<open>load_objects\<close> on an archive with this member; on a header
  whose first \<^verbatim>\<open>'/'\<close> is at index 17 the object is registered under a name of 17 bytes.
\<close>

theorem load_objects_name_field:
  "scan_name (write_header ''a.o'' 0 0 0 mode_0666 4) = Inl Undefined \<and>
   load_objects 3 (image_new \<lparr>aname = ''libx.a'', oname = [], f_offset = 0, f_size = 72\<rparr>)
      (rld_archive_ident @ write_header ''a.o'' 0 0 0 mode_0666 4 @ ''abcd'') [] = Some (Inl Undefined) \<and>
   map_option (map_sum id (map fst))
     (load_objects 3 (image_new \<lparr>aname = ''libx.a'', oname = [], f_offset = 0, f_size = 72\<rparr>)
        (rld_archive_ident @ overwrite (write_header ''abcdefghijklmnop'' 0 0 0 mode_0666 4) 16 ''q/'' @ ''abcd'') [])
     = Some (Inr [''libx.a:abcdefghijklmnopq@68''])"
  by code_simp

end
